theory Spec2Isabelle
  imports Complex_Main
begin

section \<open>LED recipes of the dispatcher states (dispatcher/transitions.py)\<close>

text \<open>
  Modelled from the spec: the module \<open>bermudafunk.dispatcher.data_types\<close> is imported by
  the sources but is not part of them. The spec gives
  \<open>LedStatus = (state: {OFF, ON, BLINK}, blink_freq)\<close> and
  \<open>StudioLedStatus = (green, yellow, red : LedStatus)\<close>; the keyword arguments used in
  \<open>transitions.py\<close> (\<open>state=\<close>, \<open>blink_freq=\<close>, \<open>green=\<close>, \<open>yellow=\<close>, \<open>red=\<close>) agree.
\<close>

datatype LedState = LED_OFF | LED_ON | LED_BLINK

record LedStatus =
  led_state :: LedState
  blink_freq :: nat

record StudioLedStatus =
  green :: LedStatus
  yellow :: LedStatus
  red :: LedStatus

text \<open>\<open>LedStateTarget = NamedTuple('LedStateTarget', [('x', ...), ('y', ...), ('other', ...)])\<close>;
  the fields carry a prefix here (\<open>target_x\<close> for \<open>x\<close>, \<open>led_state\<close> for \<open>state\<close>) so that they
  do not capture the variables of the theorems.\<close>

record LedStateTarget =
  target_x :: StudioLedStatus
  target_y :: StudioLedStatus
  target_other :: StudioLedStatus

text \<open>The members of \<open>class LedStatuses(enum.Enum)\<close>, by their values.\<close>

definition LedStatuses_OFF :: LedStatus where
  "LedStatuses_OFF = \<lparr>led_state = LED_OFF, blink_freq = 2\<rparr>"

definition LedStatuses_ON :: LedStatus where
  "LedStatuses_ON = \<lparr>led_state = LED_ON, blink_freq = 2\<rparr>"

definition LedStatuses_BLINK :: LedStatus where
  "LedStatuses_BLINK = \<lparr>led_state = LED_BLINK, blink_freq = 2\<rparr>"

definition LedStatuses_BLINK_FAST :: LedStatus where
  "LedStatuses_BLINK_FAST = \<lparr>led_state = LED_BLINK, blink_freq = 4\<rparr>"

text \<open>The members of \<open>class States(enum.Enum)\<close>, in the order of the source.\<close>

datatype States =
    AUTOMAT_ON_AIR
  | AUTOMAT_ON_AIR_IMMEDIATE_STATE_X
  | FROM_AUTOMAT_CHANGE_TO_STUDIO_X_ON_NEXT_HOUR
  | STUDIO_X_ON_AIR
  | FROM_STUDIO_X_CHANGE_TO_AUTOMAT_ON_NEXT_HOUR
  | STUDIO_X_ON_AIR_IMMEDIATE_STATE
  | STUDIO_X_ON_AIR_IMMEDIATE_RELEASE
  | FROM_STUDIO_X_CHANGE_TO_STUDIO_Y_ON_NEXT_HOUR
  | STUDIO_X_ON_AIR_STUDIO_Y_TAKEOVER_REQUEST
  | NOOP


definition mk_studio :: "LedStatus \<Rightarrow> LedStatus \<Rightarrow> LedStatus \<Rightarrow> StudioLedStatus" where
  "mk_studio g yl r = \<lparr>green = g, yellow = yl, red = r\<rparr>"

text \<open>The second argument of each \<open>LedAwareState(name, LedStateTarget(x=..., y=..., other=...))\<close>.\<close>

fun led_state_target :: "States \<Rightarrow> LedStateTarget" where
  "led_state_target AUTOMAT_ON_AIR =
     \<lparr>target_x = mk_studio LedStatuses_OFF LedStatuses_OFF LedStatuses_OFF,
      target_y = mk_studio LedStatuses_OFF LedStatuses_OFF LedStatuses_OFF,
      target_other = mk_studio LedStatuses_OFF LedStatuses_OFF LedStatuses_OFF\<rparr>"
| "led_state_target AUTOMAT_ON_AIR_IMMEDIATE_STATE_X =
     \<lparr>target_x = mk_studio LedStatuses_OFF LedStatuses_OFF LedStatuses_ON,
      target_y = mk_studio LedStatuses_OFF LedStatuses_OFF LedStatuses_OFF,
      target_other = mk_studio LedStatuses_OFF LedStatuses_OFF LedStatuses_OFF\<rparr>"
| "led_state_target FROM_AUTOMAT_CHANGE_TO_STUDIO_X_ON_NEXT_HOUR =
     \<lparr>target_x = mk_studio LedStatuses_BLINK LedStatuses_OFF LedStatuses_OFF,
      target_y = mk_studio LedStatuses_OFF LedStatuses_OFF LedStatuses_OFF,
      target_other = mk_studio LedStatuses_OFF LedStatuses_OFF LedStatuses_OFF\<rparr>"
| "led_state_target STUDIO_X_ON_AIR =
     \<lparr>target_x = mk_studio LedStatuses_ON LedStatuses_OFF LedStatuses_OFF,
      target_y = mk_studio LedStatuses_OFF LedStatuses_OFF LedStatuses_OFF,
      target_other = mk_studio LedStatuses_OFF LedStatuses_OFF LedStatuses_OFF\<rparr>"
| "led_state_target FROM_STUDIO_X_CHANGE_TO_AUTOMAT_ON_NEXT_HOUR =
     \<lparr>target_x = mk_studio LedStatuses_ON LedStatuses_BLINK LedStatuses_OFF,
      target_y = mk_studio LedStatuses_OFF LedStatuses_OFF LedStatuses_OFF,
      target_other = mk_studio LedStatuses_OFF LedStatuses_OFF LedStatuses_OFF\<rparr>"
| "led_state_target STUDIO_X_ON_AIR_IMMEDIATE_STATE =
     \<lparr>target_x = mk_studio LedStatuses_ON LedStatuses_OFF LedStatuses_ON,
      target_y = mk_studio LedStatuses_OFF LedStatuses_OFF LedStatuses_OFF,
      target_other = mk_studio LedStatuses_OFF LedStatuses_OFF LedStatuses_OFF\<rparr>"
| "led_state_target STUDIO_X_ON_AIR_IMMEDIATE_RELEASE =
     \<lparr>target_x = mk_studio LedStatuses_ON LedStatuses_BLINK LedStatuses_ON,
      target_y = mk_studio LedStatuses_OFF LedStatuses_OFF LedStatuses_OFF,
      target_other = mk_studio LedStatuses_OFF LedStatuses_BLINK LedStatuses_BLINK\<rparr>"
| "led_state_target FROM_STUDIO_X_CHANGE_TO_STUDIO_Y_ON_NEXT_HOUR =
     \<lparr>target_x = mk_studio LedStatuses_ON LedStatuses_ON LedStatuses_OFF,
      target_y = mk_studio LedStatuses_BLINK LedStatuses_OFF LedStatuses_OFF,
      target_other = mk_studio LedStatuses_OFF LedStatuses_OFF LedStatuses_OFF\<rparr>"
| "led_state_target STUDIO_X_ON_AIR_STUDIO_Y_TAKEOVER_REQUEST =
     \<lparr>target_x = mk_studio LedStatuses_ON LedStatuses_BLINK LedStatuses_OFF,
      target_y = mk_studio LedStatuses_OFF LedStatuses_ON LedStatuses_OFF,
      target_other = mk_studio LedStatuses_OFF LedStatuses_OFF LedStatuses_OFF\<rparr>"
| "led_state_target NOOP =
     \<lparr>target_x = mk_studio LedStatuses_OFF LedStatuses_OFF LedStatuses_OFF,
      target_y = mk_studio LedStatuses_OFF LedStatuses_OFF LedStatuses_OFF,
      target_other = mk_studio LedStatuses_OFF LedStatuses_OFF LedStatuses_OFF\<rparr>"

subsection \<open>The LED recipe table as the specification prints it\<close>

text \<open>
  The codes of the table of section 6 of the specification: \<open>OFF\<close>, \<open>ON\<close>, \<open>BLINK\<close> (blink at
  2 Hz) and \<open>FAST\<close> (blink at 4 Hz). The table does not give a frequency for \<open>OFF\<close> and
  \<open>ON\<close>; a code is therefore read as a lamp mode and, for the two blinking codes, a
  frequency.
\<close>

datatype spec_code = OFF | ON | BLINK | FAST

fun spec_mode :: "spec_code \<Rightarrow> LedState" where
  "spec_mode OFF = LED_OFF"
| "spec_mode ON = LED_ON"
| "spec_mode BLINK = LED_BLINK"
| "spec_mode FAST = LED_BLINK"

fun spec_blink_hz :: "spec_code \<Rightarrow> nat option" where
  "spec_blink_hz OFF = None"
| "spec_blink_hz ON = None"
| "spec_blink_hz BLINK = Some 2"
| "spec_blink_hz FAST = Some 4"

type_synonym spec_triple = "spec_code \<times> spec_code \<times> spec_code"

text \<open>One row per state: the columns X (G,Y,R), Y (G,Y,R) and other (G,Y,R).\<close>

fun spec_led_table :: "States \<Rightarrow> spec_triple \<times> spec_triple \<times> spec_triple" where
  "spec_led_table AUTOMAT_ON_AIR = ((OFF, OFF, OFF), (OFF, OFF, OFF), (OFF, OFF, OFF))"
| "spec_led_table AUTOMAT_ON_AIR_IMMEDIATE_STATE_X =
     ((OFF, OFF, ON), (OFF, OFF, OFF), (OFF, OFF, OFF))"
| "spec_led_table FROM_AUTOMAT_CHANGE_TO_STUDIO_X_ON_NEXT_HOUR =
     ((BLINK, OFF, OFF), (OFF, OFF, OFF), (OFF, OFF, OFF))"
| "spec_led_table STUDIO_X_ON_AIR = ((ON, OFF, OFF), (OFF, OFF, OFF), (OFF, OFF, OFF))"
| "spec_led_table FROM_STUDIO_X_CHANGE_TO_AUTOMAT_ON_NEXT_HOUR =
     ((ON, BLINK, OFF), (OFF, OFF, OFF), (OFF, OFF, OFF))"
| "spec_led_table STUDIO_X_ON_AIR_IMMEDIATE_STATE =
     ((ON, OFF, ON), (OFF, OFF, OFF), (OFF, OFF, OFF))"
| "spec_led_table STUDIO_X_ON_AIR_IMMEDIATE_RELEASE =
     ((ON, BLINK, ON), (OFF, OFF, OFF), (OFF, BLINK, BLINK))"
| "spec_led_table FROM_STUDIO_X_CHANGE_TO_STUDIO_Y_ON_NEXT_HOUR =
     ((ON, ON, OFF), (BLINK, OFF, OFF), (OFF, OFF, OFF))"
| "spec_led_table STUDIO_X_ON_AIR_STUDIO_Y_TAKEOVER_REQUEST =
     ((ON, BLINK, OFF), (OFF, ON, OFF), (OFF, OFF, OFF))"
| "spec_led_table NOOP = ((OFF, OFF, OFF), (OFF, OFF, OFF), (OFF, OFF, OFF))"

text \<open>A lamp status of the code shows a code of the table: same mode, and the table's
  frequency where the table gives one.\<close>

definition shows_code :: "LedStatus \<Rightarrow> spec_code \<Rightarrow> bool" where
  "shows_code l c =
     (led_state l = spec_mode c \<and>
      (case spec_blink_hz c of None \<Rightarrow> True | Some f \<Rightarrow> blink_freq l = f))"

definition shows_triple :: "StudioLedStatus \<Rightarrow> spec_triple \<Rightarrow> bool" where
  "shows_triple s t =
     (case t of (g, yl, r) \<Rightarrow>
        shows_code (green s) g \<and> shows_code (yellow s) yl \<and> shows_code (red s) r)"

definition shows_row :: "LedStateTarget \<Rightarrow> spec_triple \<times> spec_triple \<times> spec_triple \<Rightarrow> bool" where
  "shows_row t row =
     (case row of (rx, ry, ro) \<Rightarrow>
        shows_triple (target_x t) rx \<and> shows_triple (target_y t) ry \<and> shows_triple (target_other t) ro)"

section \<open>Python strings\<close>

text \<open>\<open>str.split(sep)\<close> for a separator of one character: the segments between the
  separators, empty ones included (\<open>'a\rb\r'.split('\r') = ['a', 'b', '']\<close>).\<close>

fun split_from :: "char \<Rightarrow> string \<Rightarrow> string \<Rightarrow> string list" where
  "split_from sep segment [] = [segment]"
| "split_from sep segment (c # cs) =
     (if c = sep then segment # split_from sep [] cs
      else split_from sep (segment @ [c]) cs)"

definition split_on :: "char \<Rightarrow> string \<Rightarrow> string list" where
  "split_on sep s = split_from sep [] s"

fun startswith :: "string \<Rightarrow> string \<Rightarrow> bool" where
  "startswith s [] = True"
| "startswith [] (p # ps) = False"
| "startswith (c # cs) (p # ps) = (c = p \<and> startswith cs ps)"

text \<open>\<open>sub in s\<close> for strings: \<open>sub\<close> occurs in \<open>s\<close> as a substring.\<close>

fun contains :: "string \<Rightarrow> string \<Rightarrow> bool" where
  "contains [] sub = (sub = [])"
| "contains (c # cs) sub = (startswith (c # cs) sub \<or> contains cs sub)"

definition is_digit :: "char \<Rightarrow> bool" where
  "is_digit c = (c \<in> set ''0123456789'')"

definition digit_val :: "char \<Rightarrow> int" where
  "digit_val c = int (of_char c) - 48"

text \<open>\<open>int(s)\<close> for a string of decimal digits with an optional leading minus sign,
  the only strings the regular expressions below hand to \<open>int\<close>.\<close>

definition digits_val :: "string \<Rightarrow> int" where
  "digits_val ds = foldl (\<lambda>acc c. 10 * acc + digit_val c) 0 ds"

definition py_int :: "string \<Rightarrow> int" where
  "py_int s = (case s of [] \<Rightarrow> 0
     | c # cs \<Rightarrow> if c = CHR ''-'' then - digits_val cs else digits_val (c # cs))"

text \<open>Where \<open>$\<close> matches: at the end of the string and just before a newline that ends
  the string.\<close>

definition at_dollar :: "string \<Rightarrow> bool" where
  "at_dollar s = (s = [] \<or> s = [CHR 0x0A])"

definition CR :: char where
  "CR = CHR 0x0D"

text \<open>
  \<open>bytes.decode()\<close>, with its defaults \<open>'utf-8'\<close> and \<open>'strict'\<close>, accepts the
  well-formed UTF-8 byte sequences: one byte below \<open>0x80\<close>; a lead byte \<open>0xC2\<close> to
  \<open>0xDF\<close> and one continuation byte; a lead byte \<open>0xE0\<close> to \<open>0xEF\<close> and two; a lead byte
  \<open>0xF0\<close> to \<open>0xF4\<close> and three. A continuation byte is \<open>0x80\<close> to \<open>0xBF\<close>; the first
  one after \<open>0xE0\<close>, \<open>0xED\<close>, \<open>0xF0\<close> and \<open>0xF4\<close> has a narrower range, which keeps out
  the overlong forms, the surrogates and the code points above \<open>U+10FFFF\<close>.
\<close>

definition continuation :: "nat \<Rightarrow> bool" where
  "continuation b = (128 \<le> b \<and> b \<le> 191)"

definition second_byte :: "nat \<Rightarrow> nat \<Rightarrow> bool" where
  "second_byte lead b =
     (if lead = 224 then 160 \<le> b \<and> b \<le> 191
      else if lead = 237 then 128 \<le> b \<and> b \<le> 159
      else if lead = 240 then 144 \<le> b \<and> b \<le> 191
      else if lead = 244 then 128 \<le> b \<and> b \<le> 143
      else continuation b)"

fun utf8_valid :: "nat list \<Rightarrow> bool" where
  "utf8_valid [] = True"
| "utf8_valid (b # bs) =
     (if b < 128 then utf8_valid bs
      else if 194 \<le> b \<and> b \<le> 223 then
        (case bs of
           c1 # rest \<Rightarrow> continuation c1 \<and> utf8_valid rest
         | _ \<Rightarrow> False)
      else if 224 \<le> b \<and> b \<le> 239 then
        (case bs of
           c1 # c2 # rest \<Rightarrow> second_byte b c1 \<and> continuation c2 \<and> utf8_valid rest
         | _ \<Rightarrow> False)
      else if 240 \<le> b \<and> b \<le> 244 then
        (case bs of
           c1 # c2 # c3 # rest \<Rightarrow>
             second_byte b c1 \<and> continuation c2 \<and> continuation c3 \<and> utf8_valid rest
         | _ \<Rightarrow> False)
      else False)"

section \<open>Floating point arithmetic of the selector mapping\<close>

text \<open>
  Python's \<open>float\<close> is the IEEE-754 binary64 format. A finite float is modelled by the
  rational number it denotes; \<open>fl q\<close> is the float nearest to the exact value \<open>q\<close>, ties
  to the even significand: 53 significant bits down to the exponent of the subnormal
  numbers. Overflow is checked where the source can meet it (the conversion of an integer
  to a float).
\<close>

fun bitlen_nat :: "nat \<Rightarrow> nat" where
  "bitlen_nat n = (if n = 0 then 0 else Suc (bitlen_nat (n div 2)))"

declare bitlen_nat.simps [simp del]

definition pow2 :: "int \<Rightarrow> rat" where
  "pow2 e = (if 0 \<le> e then 2 ^ nat e else 1 / 2 ^ nat (- e))"

text \<open>\<open>\<lfloor>log\<^sub>2 q\<rfloor>\<close> for a positive rational \<open>q\<close>.\<close>

definition ilog2 :: "rat \<Rightarrow> int" where
  "ilog2 q = (case quotient_of q of (a, b) \<Rightarrow>
     let k = int (bitlen_nat (nat a)) - int (bitlen_nat (nat b))
     in if pow2 k \<le> q then k else k - 1)"

text \<open>\<open>round(x)\<close> of a float: the nearest integer, a tie goes to the even one.\<close>

definition py_round :: "rat \<Rightarrow> int" where
  "py_round q = (let f = \<lfloor>q\<rfloor>; d = q - of_int f
     in if d < 1 / 2 then f else if 1 / 2 < d then f + 1 else if even f then f else f + 1)"

definition fl :: "rat \<Rightarrow> rat" where
  "fl q = (if q = 0 then 0 else
     let e = max (ilog2 \<bar>q\<bar> - 52) (- 1074)
     in of_int (py_round (q / pow2 e)) * pow2 e)"

text \<open>Overflow of the exponent range: an integer too large for a float, and the float
  infinity reaching \<open>round\<close>, both raise \<open>OverflowError\<close>. No other use is made of an
  infinity in the expressions modelled here, so the overflow is raised where it arises.\<close>

datatype exn =
    AssertionError
  | ZeroDivisionError
  | OverflowError
  | TypeError
  | ValueError
  | KeyError
  | UnicodeDecodeError
  | IOError int
  | JSONDecodeError
  | Other_exception
  | Assure_failed int
  | Retrieve_failed int

definition to_float :: "rat \<Rightarrow> exn + rat" where
  "to_float q = (let f = fl q in if pow2 1024 \<le> \<bar>f\<bar> then Inl OverflowError else Inr f)"

text \<open>\<open>int(round((position - 1) / (position_count - 1) * 65535))\<close>\<close>

definition position_to_raw :: "int \<Rightarrow> int \<Rightarrow> exn + int" where
  "position_to_raw n p =
     (if n - 1 = 0 then Inl ZeroDivisionError
      else case to_float (of_int (p - 1) / of_int (n - 1)) of
        Inl e \<Rightarrow> Inl e
      | Inr q \<Rightarrow> (case to_float (q * 65535) of
          Inl e \<Rightarrow> Inl e
        | Inr v \<Rightarrow> Inr (py_round v)))"

text \<open>\<open>int(round(raw / 65535 * (position_count - 1) + 1))\<close>\<close>

definition raw_to_position :: "int \<Rightarrow> int \<Rightarrow> exn + int" where
  "raw_to_position n raw =
     (case to_float (of_int raw / 65535) of
        Inl e \<Rightarrow> Inl e
      | Inr q \<Rightarrow> (case to_float (of_int (n - 1)) of
          Inl e \<Rightarrow> Inl e
        | Inr m \<Rightarrow> (case to_float (q * m) of
            Inl e \<Rightarrow> Inl e
          | Inr t \<Rightarrow> (case to_float (t + 1) of
              Inl e \<Rightarrow> Inl e
            | Inr u \<Rightarrow> Inr (py_round u)))))"

section \<open>Decoding bytes\<close>

text \<open>
  A \<open>bytes\<close> object is the list of its bytes, a \<open>str\<close> the list of the bytes of its UTF-8
  encoding: \<open>decode\<close> gives the same list, or raises \<open>UnicodeDecodeError\<close>. The operations
  on strings modelled here (the split at \<open>\\r\<close>, the test for an empty segment, the patterns
  and the substrings looked for, all of ASCII characters) give the same on the bytes as on
  the code points.
\<close>

definition decode :: "string \<Rightarrow> exn + string" where
  "decode data = (if utf8_valid (map of_char data) then Inr data else Inl UnicodeDecodeError)"

section \<open>The SymNet protocol client and the controllers (SymNet.py)\<close>

text \<open>
  Objects live in a store: a controller is named by a reference, a future by a number.
  The event loop is the list of tasks it was given (\<open>create_task\<close>, \<open>ensure_future\<close>) and
  its clock. Only the calls of \<open>logger.debug\<close> are left out of the log.
\<close>

type_synonym ref = nat
type_synonym observer_fn = nat

datatype level = INFO | WARNING | ERROR | CRITICAL

datatype log_record = Log level string "string list"

datatype future_state = Pending | Result | Raised exn

text \<open>The callables handed to \<open>SymNetRawProtocolCallback\<close> in the repository: the bound
  methods \<open>_assure_callback\<close> and \<open>_retrieve_callback\<close> of a controller.\<close>

datatype callable = Assure_callback ref | Retrieve_callback ref

text \<open>The patterns handed to it: \<open>'^(ACK)|(NAK)\r$'\<close> and
  \<open>'^' + str(controller_number) + ' ([0-9]{1,5})\r$'\<close>.\<close>

datatype regex = Assure_regex | Retrieve_regex int

text \<open>A match object, as the list of its groups (\<open>None\<close> for a group that took no part).\<close>

type_synonym match = "string option list"

record SymNetRawProtocolCallback =
  cb_callback :: callable
  expected_lines :: nat
  regex :: "regex option"
  future :: nat

record SymNetRawControllerState =
  cs_controller_number :: int
  cs_controller_value :: int

text \<open>\<open>position_count\<close> is the field of \<open>SymNetSelectorController\<close>; the other controllers
  do not read it.\<close>

record SymNetController =
  controller_number :: int
  raw_value :: int
  raw_value_time :: rat
  observer :: "observer_fn list"
  position_count :: int

text \<open>A task of the loop: \<open>clb(controller, old_value=..., new_value=...)\<close>.\<close>

datatype task = Observer_call observer_fn ref int int

record world =
  callback_queue :: "SymNetRawProtocolCallback list"
  state_queue :: "SymNetRawControllerState list"
  futures :: "nat \<Rightarrow> future_state"
  next_future :: nat
  heap :: "ref \<Rightarrow> SymNetController"
  controllers :: "int \<rightharpoonup> ref"
  tasks :: "task list"
  sent :: "string list"
  log :: "log_record list"
  loop_time :: rat

fun digits_of :: "nat \<Rightarrow> string" where
  "digits_of n =
     (if n < 10 then [char_of (48 + n)]
      else digits_of (n div 10) @ [char_of (48 + n mod 10)])"

declare digits_of.simps [simp del]

text \<open>\<open>str(n)\<close> and \<open>'{:d}'.format(n)\<close> of an integer.\<close>

definition py_str :: "int \<Rightarrow> string" where
  "py_str i = (if i < 0 then CHR ''-'' # digits_of (nat (- i)) else digits_of (nat i))"

text \<open>\<open>re.match\<close> with the two patterns. In \<open>'^(ACK)|(NAK)\r$'\<close> the alternation binds
  weakest: the alternatives are \<open>^(ACK)\<close> and \<open>(NAK)\r$\<close>, tried in this order at the start
  of the string.\<close>

fun re_match :: "regex \<Rightarrow> string \<Rightarrow> match option" where
  "re_match Assure_regex s =
     (if startswith s ''ACK'' then Some [Some ''ACK'', None]
      else if startswith s (''NAK'' @ [CR]) \<and> at_dollar (drop 4 s)
        then Some [None, Some ''NAK'']
      else None)"
| "re_match (Retrieve_regex cn) s =
     (let pre = py_str cn @ '' '' in
      if startswith s pre then
        (let rest = drop (length pre) s; ds = takeWhile is_digit rest;
             after = drop (length ds) rest in
         if 1 \<le> length ds \<and> length ds \<le> 5 \<and> startswith after [CR]
            \<and> at_dollar (drop 1 after)
         then Some [Some ds] else None)
      else None)"

text \<open>\<open>re.match('^#([0-9]{5})=(-?[0-9]{4,5})$', line)\<close>: the groups of the match. The
  greedy \<open>{4,5}\<close> takes five digits first and falls back to four.\<close>

definition match_push :: "string \<Rightarrow> (string \<times> string) option" where
  "match_push line =
     (case line of [] \<Rightarrow> None
      | c # r0 \<Rightarrow>
         if c = CHR ''#'' \<and> length (take 5 r0) = 5 \<and> list_all is_digit (take 5 r0)
            \<and> startswith (drop 5 r0) ''=''
         then
           (let g1 = take 5 r0; r1 = drop 6 r0;
                sign = (if startswith r1 ''-'' then ''-'' else []);
                r2 = drop (length sign) r1 in
            if length (take 5 r2) = 5 \<and> list_all is_digit (take 5 r2)
               \<and> at_dollar (drop 5 r2)
              then Some (g1, sign @ take 5 r2)
            else if length (take 4 r2) = 4 \<and> list_all is_digit (take 4 r2)
               \<and> at_dollar (drop 4 r2)
              then Some (g1, sign @ take 4 r2)
            else None)
         else None)"

text \<open>\<open>m.group(1)\<close>\<close>

definition group1 :: "match \<Rightarrow> string option" where
  "group1 m = (case m of [] \<Rightarrow> None | g # _ \<Rightarrow> g)"

subsection \<open>SymNetController\<close>

definition value_timeout :: rat where
  "value_timeout = 10"

definition set_raw_value :: "ref \<Rightarrow> int \<Rightarrow> world \<Rightarrow> world" where
  "set_raw_value r v w =
     (let c = heap w r;
          old_value = raw_value c;
          w1 = w\<lparr>heap := (heap w)(r := c\<lparr>raw_value := v, raw_value_time := loop_time w\<rparr>)\<rparr>
      in if old_value \<noteq> v
         then w1\<lparr>tasks := tasks w1 @ map (\<lambda>clb. Observer_call clb r old_value v) (observer c)\<rparr>
         else w1)"

definition add_observer :: "ref \<Rightarrow> observer_fn \<Rightarrow> world \<Rightarrow> world" where
  "add_observer r clb w =
     w\<lparr>heap := (heap w)(r := (heap w r)\<lparr>observer := observer (heap w r) @ [clb]\<rparr>)\<rparr>"

text \<open>\<open>SymNetRawProtocolCallback(callback, expected_lines, regex)\<close>: the constructor takes
  a fresh future from the loop.\<close>

definition new_callback ::
  "callable \<Rightarrow> nat \<Rightarrow> regex option \<Rightarrow> world \<Rightarrow> SymNetRawProtocolCallback \<times> world" where
  "new_callback f n rx w =
     (\<lparr>cb_callback = f, expected_lines = n, regex = rx, future = next_future w\<rparr>,
      w\<lparr>futures := (futures w)(next_future w := Pending), next_future := Suc (next_future w)\<rparr>)"

definition proto_write :: "string \<Rightarrow> world \<Rightarrow> world" where
  "proto_write data w = w\<lparr>sent := sent w @ [data]\<rparr>"

definition assure_current_state :: "ref \<Rightarrow> world \<Rightarrow> SymNetRawProtocolCallback \<times> world" where
  "assure_current_state r w =
     (case new_callback (Assure_callback r) 1 (Some Assure_regex) w of
        (callback_obj, w1) \<Rightarrow>
          (callback_obj,
           proto_write (''CS '' @ py_str (controller_number (heap w1 r)) @ '' ''
                    @ py_str (raw_value (heap w1 r)) @ [CR])
             (w1\<lparr>callback_queue := callback_queue w1 @ [callback_obj]\<rparr>)))"

definition retrieve_current_state :: "ref \<Rightarrow> world \<Rightarrow> SymNetRawProtocolCallback \<times> world" where
  "retrieve_current_state r w =
     (case new_callback (Retrieve_callback r) 1
             (Some (Retrieve_regex (controller_number (heap w r)))) w of
        (callback_obj, w1) \<Rightarrow>
          (callback_obj,
           proto_write (''GS2 '' @ py_str (controller_number (heap w1 r)) @ [CR])
             (w1\<lparr>callback_queue := callback_queue w1 @ [callback_obj]\<rparr>)))"

text \<open>\<open>_assure_callback(self, _, m=None)\<close> and \<open>_retrieve_callback(self, _, m=None)\<close>: the
  new world, or the exception raised. \<open>int\<close> of a group that took no part is a
  \<open>TypeError\<close>, of a string that is no number a \<open>ValueError\<close>.\<close>

definition assure_callback :: "ref \<Rightarrow> string \<Rightarrow> match option \<Rightarrow> world \<Rightarrow> exn + world" where
  "assure_callback r data m w =
     (if m = None \<or> group1 (the m) = Some ''NAK''
      then Inl (Assure_failed (controller_number (heap w r)))
      else Inr w)"

definition retrieve_callback :: "ref \<Rightarrow> string \<Rightarrow> match option \<Rightarrow> world \<Rightarrow> exn + world" where
  "retrieve_callback r data m w =
     (case m of
        None \<Rightarrow> Inl (Retrieve_failed (controller_number (heap w r)))
      | Some g \<Rightarrow>
          (case group1 g of
             None \<Rightarrow> Inl TypeError
           | Some ds \<Rightarrow>
               if ds \<noteq> [] \<and> list_all is_digit ds then Inr (set_raw_value r (py_int ds) w)
               else Inl ValueError))"

fun run_callable :: "callable \<Rightarrow> string \<Rightarrow> match option \<Rightarrow> world \<Rightarrow> exn + world" where
  "run_callable (Assure_callback r) data m w = assure_callback r data m w"
| "run_callable (Retrieve_callback r) data m w = retrieve_callback r data m w"

subsection \<open>SymNetRawProtocolCallback.callback and SymNetRawProtocol.datagram_received\<close>

text \<open>\<open>callback\<close>: the result of the callable settles the future, an exception of the
  callable rejects it. Both callables raise before they change anything. The future of a
  callback in the queue is taken to be pending: nothing in the repository settles or
  cancels it before \<open>callback\<close> does.\<close>

definition callback ::
  "SymNetRawProtocolCallback \<Rightarrow> string \<Rightarrow> match option \<Rightarrow> world \<Rightarrow> world" where
  "callback c data m w =
     (case run_callable (cb_callback c) data m w of
        Inr w' \<Rightarrow> w'\<lparr>futures := (futures w')(future c := Result)\<rparr>
      | Inl e \<Rightarrow> w\<lparr>futures := (futures w)(future c := Raised e)\<rparr>)"

text \<open>The loop \<open>for callback_obj in self.callback_queue\<close>: \<open>passed\<close> holds the callbacks
  already passed over, so that \<open>callback_queue.remove(callback_obj)\<close> leaves
  \<open>passed @ rest\<close>. The result is \<open>Some\<close> world when the loop returned from
  \<open>datagram_received\<close>, \<open>None\<close> when it ran to its end.\<close>

fun for_callbacks ::
  "world \<Rightarrow> string \<Rightarrow> string list \<Rightarrow> SymNetRawProtocolCallback list
     \<Rightarrow> SymNetRawProtocolCallback list \<Rightarrow> world option" where
  "for_callbacks w data_str lines passed [] = None"
| "for_callbacks w data_str lines passed (callback_obj # rest) =
     (if length lines = 1 \<and> hd lines = ''NAK'' then
        Some ((callback callback_obj data_str None w)\<lparr>callback_queue := passed @ rest\<rparr>)
      else
        (case regex callback_obj of
           Some rx \<Rightarrow>
             (case re_match rx data_str of
                Some m \<Rightarrow>
                  Some ((callback callback_obj data_str (Some m) w)
                          \<lparr>callback_queue := passed @ rest\<rparr>)
              | None \<Rightarrow> for_callbacks w data_str lines (passed @ [callback_obj]) rest)
         | None \<Rightarrow>
             if length lines = expected_lines callback_obj then
               Some ((callback callback_obj data_str None w)\<lparr>callback_queue := passed @ rest\<rparr>)
             else for_callbacks w data_str lines (passed @ [callback_obj]) rest))"

text \<open>The loop \<open>for line in lines\<close> over the pushed data. \<open>ensure_future(state_queue.put(...))\<close>
  hands the put to the loop; the queue has no bound, so the puts take effect in this
  order.\<close>

fun push_lines :: "string list \<Rightarrow> world \<Rightarrow> world" where
  "push_lines [] w = w"
| "push_lines (line # ls) w =
     (case match_push line of
        None \<Rightarrow>
          push_lines ls (w\<lparr>log := log w @ [Log ERROR ''error in in the received line <%s>'' [line]]\<rparr>)
      | Some (g1, g2) \<Rightarrow>
          push_lines ls
            (w\<lparr>state_queue := state_queue w @
                 [\<lparr>cs_controller_number = py_int g1, cs_controller_value = py_int g2\<rparr>]\<rparr>))"

text \<open>The non-empty segments of the decoded datagram.\<close>

definition lines_of :: "string \<Rightarrow> string list" where
  "lines_of data_str = filter (\<lambda>l. 0 < length l) (split_on CR data_str)"

text \<open>The body of \<open>datagram_received\<close> after \<open>data_str = data.decode()\<close>: the lines, the
  loop over the pending callbacks, the lone \<open>NAK\<close> and \<open>ACK\<close>, and the pushed lines.\<close>

definition received_str :: "world \<Rightarrow> string \<Rightarrow> world" where
  "received_str w data_str =
     (let lines = lines_of data_str in
      case (if 0 < length (callback_queue w)
            then for_callbacks w data_str lines [] (callback_queue w) else None) of
        Some w' \<Rightarrow> w'
      | None \<Rightarrow>
          if length lines = 1 \<and> hd lines = ''NAK'' then
            w\<lparr>log := log w @ [Log ERROR ''Uncaught NAK - this is probably a huge error'' []]\<rparr>
          else if length lines = 1 \<and> hd lines = ''ACK'' then w
          else push_lines lines w)"

text \<open>\<open>datagram_received(data, address)\<close>: \<open>data.decode()\<close> raises for bytes that are not
  UTF-8, before anything else happens; the exception leaves \<open>datagram_received\<close>.\<close>

definition datagram_received :: "world \<Rightarrow> string \<Rightarrow> exn + world" where
  "datagram_received w data =
     (case decode data of
        Inl e \<Rightarrow> Inl e
      | Inr data_str \<Rightarrow> Inr (received_str w data_str))"

subsection \<open>SymNetDevice._process_push_messages\<close>


subsection \<open>SymNetSelectorController\<close>

text \<open>
  A coroutine runs up to its \<open>await\<close> in one piece: \<open>set_position\<close> is its part before
  \<open>await self._assure_current_state().future\<close>, giving the future it waits for, and
  \<open>await_future\<close> is what the \<open>await\<close> gives once the future is settled (\<open>None\<close> while it
  is pending).
\<close>

definition await_future :: "nat \<Rightarrow> world \<Rightarrow> (exn + unit) option" where
  "await_future fut w =
     (case futures w fut of
        Pending \<Rightarrow> None
      | Result \<Rightarrow> Some (Inr ())
      | Raised e \<Rightarrow> Some (Inl e))"

definition set_position :: "ref \<Rightarrow> int \<Rightarrow> world \<Rightarrow> exn + (nat \<times> world)" where
  "set_position r position w =
     (if \<not> (1 \<le> position \<and> position \<le> position_count (heap w r)) then Inl AssertionError
      else case position_to_raw (position_count (heap w r)) position of
        Inl e \<Rightarrow> Inl e
      | Inr raw \<Rightarrow>
          (case assure_current_state r (set_raw_value r raw w) of
             (callback_obj, w') \<Rightarrow> Inr (future callback_obj, w')))"

text \<open>\<open>_get_raw_value\<close>: the cached value while it is fresh, else the future of a new
  request to wait for.\<close>

definition get_raw_value :: "ref \<Rightarrow> world \<Rightarrow> (int + nat) \<times> world" where
  "get_raw_value r w =
     (if value_timeout < fl (loop_time w - raw_value_time (heap w r))
      then (case retrieve_current_state r w of (callback_obj, w') \<Rightarrow> (Inr (future callback_obj), w'))
      else (Inl (raw_value (heap w r)), w))"

text \<open>\<open>get_position\<close> where \<open>_get_raw_value\<close> answers from the cache; \<open>None\<close> where it has
  to wait for the device.\<close>

definition get_position :: "ref \<Rightarrow> world \<Rightarrow> (exn + int) option" where
  "get_position r w =
     (case fst (get_raw_value r w) of
        Inl raw \<Rightarrow> Some (raw_to_position (position_count (heap w r)) raw)
      | Inr fut \<Rightarrow> None)"

section \<open>The dispatcher (dispatcher/__init__.py)\<close>

text \<open>
  Modelled from the spec: \<open>Studio\<close>, \<open>Button\<close> and \<open>ButtonEvent\<close> belong to the module
  \<open>data_types\<close>, which is not among the sources. The spec gives a studio an identity (its
  name), \<open>ButtonEvent = (studio, button)\<close> and the buttons \<open>TAKEOVER\<close>, \<open>RELEASE\<close> and
  \<open>IMMEDIATE\<close>, whose names begin the six triggers \<open>TAKEOVER_X\<close>, ..., \<open>IMMEDIATE_Y\<close>.
\<close>

datatype Studio = Studio string

datatype Button = TAKEOVER | RELEASE | IMMEDIATE


record ButtonEvent =
  ev_studio :: Studio
  ev_button :: Button

text \<open>
  The tasks the dispatcher hands to the loop, each with what the loop knows of it. A task
  is named by its position in the list. \<open>cancel()\<close> only asks for the cancellation:
  \<open>done()\<close> is true once the task has finished, by itself or cancelled.
\<close>

datatype coroutine = Hour_timer | Immediate_state_timer | Immediate_release_timer | Set_current_state

datatype task_status = Running | Cancel_requested | Done

text \<open>The dispatcher, by the attributes that the functions below read or write: \<open>d_x\<close>
  and \<open>d_y\<close> are \<open>_x\<close> and \<open>_y\<close>, a timer attribute holds its task or \<open>None\<close>,
  \<open>studio_names\<close> is the dictionary \<open>Studio.names\<close> and \<open>led_status_typed\<close> the attribute
  of that name of each studio.\<close>

record Dispatcher =
  d_x :: "Studio option"
  d_y :: "Studio option"
  on_air_selector_value :: int
  automat_selector_value :: int
  studios :: "Studio list"
  studios_to_selector_value :: "Studio \<rightharpoonup> int"
  studio_names :: "string \<rightharpoonup> Studio"
  next_hour_timer :: "nat option"
  immediate_state_timer :: "nat option"
  immediate_release_timer :: "nat option"
  machine_state :: States
  led_status_typed :: "Studio \<Rightarrow> StudioLedStatus"
  loop_tasks :: "(coroutine \<times> task_status) list"
  d_log :: "log_record list"

text \<open>\<open>base.loop.create_task(coro)\<close>: the new task, and the loop holding it.\<close>

definition create_task :: "coroutine \<Rightarrow> Dispatcher \<Rightarrow> nat \<times> Dispatcher" where
  "create_task co d = (length (loop_tasks d), d\<lparr>loop_tasks := loop_tasks d @ [(co, Running)]\<rparr>)"

text \<open>\<open>task.done()\<close> and \<open>task.cancel()\<close>\<close>

definition task_done :: "Dispatcher \<Rightarrow> nat \<Rightarrow> bool" where
  "task_done d t = (t < length (loop_tasks d) \<and> snd (loop_tasks d ! t) = Done)"

definition cancel :: "nat \<Rightarrow> Dispatcher \<Rightarrow> Dispatcher" where
  "cancel t d =
     (if t < length (loop_tasks d) \<and> snd (loop_tasks d ! t) = Running
      then d\<lparr>loop_tasks := (loop_tasks d)[t := (fst (loop_tasks d ! t), Cancel_requested)]\<rparr>
      else d)"

subsection \<open>The three timers\<close>

definition start_next_hour_timer :: "Dispatcher \<Rightarrow> Dispatcher" where
  "start_next_hour_timer d =
     (if next_hour_timer d \<noteq> None \<and> \<not> task_done d (the (next_hour_timer d)) then d
      else case create_task Hour_timer d of (t, d') \<Rightarrow> d'\<lparr>next_hour_timer := Some t\<rparr>)"

definition stop_next_hour_timer :: "Dispatcher \<Rightarrow> Dispatcher" where
  "stop_next_hour_timer d =
     (case next_hour_timer d of
        Some t \<Rightarrow> (cancel t d)\<lparr>next_hour_timer := None\<rparr>
      | None \<Rightarrow> d)"

definition start_immediate_state_timer :: "Dispatcher \<Rightarrow> Dispatcher" where
  "start_immediate_state_timer d =
     (if immediate_state_timer d \<noteq> None \<and> \<not> task_done d (the (immediate_state_timer d)) then d
      else case create_task Immediate_state_timer d of
        (t, d') \<Rightarrow> d'\<lparr>immediate_state_timer := Some t\<rparr>)"

definition stop_immediate_state_timer :: "Dispatcher \<Rightarrow> Dispatcher" where
  "stop_immediate_state_timer d =
     (case immediate_state_timer d of
        Some t \<Rightarrow> (cancel t d)\<lparr>immediate_state_timer := None\<rparr>
      | None \<Rightarrow> d)"

text \<open>\<open>if self._immediate_release_timer and self._immediate_release_timer.done(): return\<close>\<close>

definition start_immediate_release_timer :: "Dispatcher \<Rightarrow> Dispatcher" where
  "start_immediate_release_timer d =
     (if immediate_release_timer d \<noteq> None \<and> task_done d (the (immediate_release_timer d)) then d
      else case create_task Immediate_release_timer d of
        (t, d') \<Rightarrow> d'\<lparr>immediate_release_timer := Some t\<rparr>)"

definition stop_immediate_release_timer :: "Dispatcher \<Rightarrow> Dispatcher" where
  "stop_immediate_release_timer d =
     (case immediate_release_timer d of
        Some t \<Rightarrow> (cancel t d)\<lparr>immediate_release_timer := None\<rparr>
      | None \<Rightarrow> d)"

subsection \<open>The callbacks of the state machine around a state change\<close>

text \<open>What the callbacks read of the \<open>EventData\<close>: the destination of the transition
  (\<open>None\<close> for an internal one), the name of the event and the keyword argument
  \<open>button_event\<close> of the trigger, if given.\<close>

record EventData =
  transition_dest :: "string option"
  event_name :: string
  kw_button_event :: "ButtonEvent option"

definition before_state_change :: "EventData \<Rightarrow> Dispatcher \<Rightarrow> Dispatcher" where
  "before_state_change event d =
     (case transition_dest event of
        None \<Rightarrow> d
      | Some destination_state \<Rightarrow>
          (let d1 = (case kw_button_event event of
                       Some button_event \<Rightarrow>
                         if contains (event_name event) ''X''
                           then d\<lparr>d_x := Some (ev_studio button_event)\<rparr>
                         else if contains (event_name event) ''Y''
                           then d\<lparr>d_y := Some (ev_studio button_event)\<rparr>
                         else d
                     | None \<Rightarrow> d);
               d2 = (if \<not> contains destination_state ''next_hour''
                     then stop_next_hour_timer d1 else d1);
               d3 = (if \<not> contains destination_state ''immediate_state''
                     then stop_immediate_state_timer d2 else d2)
           in if \<not> contains destination_state ''immediate_release''
              then stop_immediate_release_timer d3 else d3))"

definition after_state_change :: "EventData \<Rightarrow> Dispatcher \<Rightarrow> Dispatcher" where
  "after_state_change event d =
     (case transition_dest event of
        None \<Rightarrow> d
      | Some destination_state \<Rightarrow>
          (let d1 = (if destination_state \<noteq> [] \<and> \<not> contains destination_state ''X''
                     then d\<lparr>d_x := None\<rparr> else d);
               d2 = (if destination_state \<noteq> [] \<and> \<not> contains destination_state ''Y''
                     then d1\<lparr>d_y := None\<rparr> else d1);
               d3 = (if contains destination_state ''next_hour''
                     then start_next_hour_timer d2 else d2);
               d4 = (if contains destination_state ''immediate_state''
                     then start_immediate_state_timer d3 else d3)
           in if contains destination_state ''immediate_release''
              then start_immediate_release_timer d4 else d4))"

text \<open>The timers over one state change of the machine: \<open>before_state_change\<close>, the change
  of the state, \<open>after_state_change\<close>.\<close>

definition state_change_callbacks :: "EventData \<Rightarrow> Dispatcher \<Rightarrow> Dispatcher" where
  "state_change_callbacks event d = after_state_change event (before_state_change event d)"

subsection \<open>The loop over the button events\<close>




text \<open>
  One turn of \<open>_process_studio_button_events\<close>, for the event taken from the queue. The
  state machine is the library \<open>transitions\<close> with the table of transitions of the
  repository, which is not among the sources: \<open>trigger\<close> stands for
  \<open>self._machine.trigger\<close>, giving the dispatcher after the trigger and whether a
  \<open>MachineError\<close> was raised.
\<close>



subsection \<open>Dispatcher.load\<close>

definition change_to_automat :: "Dispatcher \<Rightarrow> Dispatcher" where
  "change_to_automat d =
     snd (create_task Set_current_state (d\<lparr>on_air_selector_value := automat_selector_value d\<rparr>))"

text \<open>\<open>self._studios_to_selector_value[self._x]\<close> raises \<open>KeyError\<close> for a key the dictionary
  does not have, \<open>None\<close> among them.\<close>

definition change_to_studio :: "Dispatcher \<Rightarrow> exn option \<times> Dispatcher" where
  "change_to_studio d =
     (case (case d_x d of None \<Rightarrow> None | Some s \<Rightarrow> studios_to_selector_value d s) of
        None \<Rightarrow> (Some KeyError, d)
      | Some v \<Rightarrow> (None, snd (create_task Set_current_state (d\<lparr>on_air_selector_value := v\<rparr>))))"

text \<open>
  The state file as \<open>open(self.file_path, 'r')\<close> finds it: opening or reading it raises an
  \<open>IOError\<close> with its \<open>errno\<close> (2 for a file that does not exist), or it has a content,
  its bytes.
\<close>

datatype state_file =
    Io_fails int
  | File_bytes string

text \<open>
  The values of \<open>json.loads\<close> by what \<open>load\<close> does with them. \<open>State_object x y state\<close>
  is a JSON object with exactly the keys \<open>x\<close>, \<open>y\<close> and \<open>state\<close>, the first two a string or
  \<open>null\<close>, the third a string; for any other JSON value \<open>self._save_state(**state)\<close> or a
  later line raises an exception that \<open>load\<close> does not catch (\<open>Other_value\<close>).
\<close>

datatype json =
    State_object "string option" "string option" string
  | Other_value

text \<open>
  \<open>json.load(fp)\<close> is \<open>json.loads(fp.read())\<close>. The file is open in text mode: \<open>fp.read()\<close>
  decodes its bytes, with the encoding of the locale, taken to be UTF-8, and raises
  \<open>UnicodeDecodeError\<close> for bytes that are not. \<open>json_loads\<close> stands for \<open>json.loads\<close> of
  the library: the value of a text, \<open>None\<close> where it raises \<open>JSONDecodeError\<close>.
\<close>

definition json_load :: "(string \<Rightarrow> json option) \<Rightarrow> string \<Rightarrow> exn + json" where
  "json_load json_loads content =
     (case decode content of
        Inl e \<Rightarrow> Inl e
      | Inr content_str \<Rightarrow>
          (case json_loads content_str of
             None \<Rightarrow> Inl JSONDecodeError
           | Some v \<Rightarrow> Inr v))"

text \<open>The body of the \<open>try\<close>: the exception that left it, if any, and the dispatcher at
  that point. \<open>trigger\<close> is \<open>self._machine.trigger\<close> again, here with the exception it
  may raise.\<close>

definition load_state ::
  "(string \<Rightarrow> Dispatcher \<Rightarrow> exn option \<times> Dispatcher)
     \<Rightarrow> string option \<Rightarrow> string option \<Rightarrow> string \<Rightarrow> Dispatcher
     \<Rightarrow> exn option \<times> Dispatcher" where
  "load_state trigger sx sy st d =
     (let r1 =
           (if sx \<noteq> None \<and> sx \<noteq> Some [] then
              (case studio_names d (the sx) of
                 None \<Rightarrow> (Some KeyError, d)
               | Some s \<Rightarrow>
                   if sy \<noteq> None \<and> sy \<noteq> Some [] then
                     (case studio_names d (the sy) of
                        None \<Rightarrow> (Some KeyError, d\<lparr>d_x := Some s\<rparr>)
                      | Some s' \<Rightarrow> (None, d\<lparr>d_x := Some s, d_y := Some s'\<rparr>))
                   else (None, d\<lparr>d_x := Some s\<rparr>))
            else (None, d))
      in case r1 of
           (Some e, d1) \<Rightarrow> (Some e, d1)
         | (None, d1) \<Rightarrow>
             (let r2 = (if contains st ''automat_on_air'' then (None, change_to_automat d1)
                        else if contains st ''studio_X_on_air'' then change_to_studio d1
                        else (None, d1))
              in case r2 of
                   (Some e, d2) \<Rightarrow> (Some e, d2)
                 | (None, d2) \<Rightarrow> trigger (''to_'' @ st) d2))"

definition load_body ::
  "(string \<Rightarrow> Dispatcher \<Rightarrow> exn option \<times> Dispatcher) \<Rightarrow> (string \<Rightarrow> json option)
     \<Rightarrow> state_file \<Rightarrow> Dispatcher \<Rightarrow> exn option \<times> Dispatcher" where
  "load_body trigger json_loads file d =
     (case file of
        Io_fails errno \<Rightarrow> (Some (IOError errno), d)
      | File_bytes content \<Rightarrow>
          (case json_load json_loads content of
             Inl e \<Rightarrow> (Some e, d)
           | Inr Other_value \<Rightarrow> (Some Other_exception, d)
           | Inr (State_object sx sy st) \<Rightarrow> load_state trigger sx sy st d))"

text \<open>\<open>load\<close>: the body under its two \<open>except\<close> clauses, \<open>except IOError\<close> and
  \<open>except json.JSONDecodeError\<close>. The result is the exception that leaves \<open>load\<close>
  (\<open>None\<close>: it returns) and the dispatcher.\<close>

definition load ::
  "(string \<Rightarrow> Dispatcher \<Rightarrow> exn option \<times> Dispatcher) \<Rightarrow> (string \<Rightarrow> json option)
     \<Rightarrow> state_file \<Rightarrow> Dispatcher \<Rightarrow> exn option \<times> Dispatcher" where
  "load trigger json_loads file d =
     (case load_body trigger json_loads file d of
        (Some (IOError errno), d') \<Rightarrow>
          (if errno = 2
           then (None, d'\<lparr>d_log := d_log d' @ [Log WARNING ''Could load dispatcher state: %s'' [''IOError'']]\<rparr>)
           else (None, d'\<lparr>d_log := d_log d' @ [Log CRITICAL ''Could load dispatcher state: %s'' [''IOError'']]\<rparr>))
      | (Some JSONDecodeError, d') \<Rightarrow>
          (None, d'\<lparr>d_log := d_log d' @ [Log CRITICAL ''Could load dispatcher state: %s'' [''JSONDecodeError'']]\<rparr>)
      | (Some e, d') \<Rightarrow> (Some e, d')
      | (None, d') \<Rightarrow> (None, d'))"

subsection \<open>calc_next_hour_timestamp\<close>

text \<open>
  A \<open>datetime\<close>: the date by its proleptic Gregorian ordinal (\<open>date.toordinal()\<close>, day 1
  is 0001-01-01, the last day 9999-12-31 is 3652059), the time of day, and whether it
  carries a \<open>tzinfo\<close>. The function reads nothing else of the date.
\<close>

record datetime =
  dt_ordinal :: int
  dt_hour :: int
  dt_minute :: int
  dt_second :: int
  dt_microsecond :: int
  dt_aware :: bool

text \<open>\<open>now.replace(minute=minutes, second=seconds)\<close>: fields out of range are a
  \<open>ValueError\<close>.\<close>

definition replace_minute_second :: "int \<Rightarrow> int \<Rightarrow> datetime \<Rightarrow> exn + datetime" where
  "replace_minute_second minutes seconds d =
     (if 0 \<le> minutes \<and> minutes \<le> 59 \<and> 0 \<le> seconds \<and> seconds \<le> 59
      then Inr (d\<lparr>dt_minute := minutes, dt_second := seconds\<rparr>)
      else Inl ValueError)"

text \<open>\<open>d + datetime.timedelta(hours=1)\<close>: an hour later on the clock of \<open>d\<close>, the date
  carried on; beyond the last day it is an \<open>OverflowError\<close>.\<close>

definition add_one_hour :: "datetime \<Rightarrow> exn + datetime" where
  "add_one_hour d =
     (let total = dt_hour d * 3600 + dt_minute d * 60 + dt_second d + 3600;
          day = dt_ordinal d + total div 86400;
          rest = total mod 86400
      in if 3652059 < day then Inl OverflowError
         else Inr (d\<lparr>dt_ordinal := day, dt_hour := rest div 3600,
                     dt_minute := rest mod 3600 div 60, dt_second := rest mod 60\<rparr>))"

text \<open>
  \<open>d.timestamp()\<close>, a float. For an aware \<open>datetime\<close>, \<open>utcoffset\<close> gives the seconds that
  its \<open>tzinfo\<close> puts the clock of \<open>d\<close> ahead of UTC; the distance to the epoch in
  microseconds is divided by \<open>10 ** 6\<close>. For a naive one, \<open>local_to_seconds\<close> stands for
  the conversion of the platform from the local time to the seconds since the epoch, which
  raises for a time that it cannot convert (a \<open>ValueError\<close> or an \<open>OverflowError\<close> at the
  ends of the range of the dates); \<open>microsecond / 1e6\<close> is added to the seconds.
\<close>

definition epoch_seconds :: "(datetime \<Rightarrow> int) \<Rightarrow> datetime \<Rightarrow> int" where
  "epoch_seconds utcoffset d =
     (dt_ordinal d - 719163) * 86400 + dt_hour d * 3600 + dt_minute d * 60 + dt_second d
       - utcoffset d"

definition timestamp ::
  "(datetime \<Rightarrow> int) \<Rightarrow> (datetime \<Rightarrow> exn + int) \<Rightarrow> datetime \<Rightarrow> exn + rat" where
  "timestamp utcoffset local_to_seconds d =
     (if dt_aware d
      then Inr (fl (of_int (epoch_seconds utcoffset d * 10 ^ 6 + dt_microsecond d) / 10 ^ 6))
      else case local_to_seconds d of
             Inl e \<Rightarrow> Inl e
           | Inr seconds \<Rightarrow>
               Inr (fl (fl (of_int seconds) + fl (of_int (dt_microsecond d) / 10 ^ 6))))"

text \<open>\<open>calc_next_hour_timestamp(minutes, seconds, now)\<close> for a \<open>datetime\<close> \<open>now\<close>.\<close>

definition calc_next_hour_timestamp ::
  "(datetime \<Rightarrow> int) \<Rightarrow> (datetime \<Rightarrow> exn + int) \<Rightarrow> int \<Rightarrow> int \<Rightarrow> datetime
     \<Rightarrow> exn + rat" where
  "calc_next_hour_timestamp utcoffset local_to_seconds minutes seconds now =
     (case replace_minute_second minutes seconds now of
        Inl e \<Rightarrow> Inl e
      | Inr replaced \<Rightarrow>
          (case add_one_hour replaced of
             Inl e \<Rightarrow> Inl e
           | Inr next_datetime \<Rightarrow>
               (case timestamp utcoffset local_to_seconds next_datetime of
                  Inl e \<Rightarrow> Inl e
                | Inr next_timestamp \<Rightarrow>
                    (case timestamp utcoffset local_to_seconds now of
                       Inl e \<Rightarrow> Inl e
                     | Inr now_timestamp \<Rightarrow>
                         if 3600 < fl (next_timestamp - now_timestamp)
                         then Inr (fl (next_timestamp - 3600))
                         else Inr next_timestamp))))"

section \<open>What the specification says of the pushed lines\<close>

text \<open>
  A line that matches the pattern of a push yields one controller state, the controller
  number and the signed value read as integers, and no error; a line that does not match
  yields no controller state and one logged error. A datagram yields what its lines yield,
  in the order of the lines.
\<close>

definition line_states :: "string \<Rightarrow> SymNetRawControllerState list" where
  "line_states line =
     (case match_push line of
        Some (number, val) \<Rightarrow>
          [\<lparr>cs_controller_number = py_int number, cs_controller_value = py_int val\<rparr>]
      | None \<Rightarrow> [])"

definition line_errors :: "string \<Rightarrow> log_record list" where
  "line_errors line =
     (case match_push line of
        Some (number, val) \<Rightarrow> []
      | None \<Rightarrow> [Log ERROR ''error in in the received line <%s>'' [line]])"

definition pushed_states :: "string list \<Rightarrow> SymNetRawControllerState list" where
  "pushed_states lines = concat (map line_states lines)"

definition push_errors :: "string list \<Rightarrow> log_record list" where
  "push_errors lines = concat (map line_errors lines)"

text \<open>The exception with which a callable of the repository answers a call without a
  match object.\<close>

fun no_match_exception :: "callable \<Rightarrow> world \<Rightarrow> exn" where
  "no_match_exception (Assure_callback r) w = Assure_failed (controller_number (heap w r))"
| "no_match_exception (Retrieve_callback r) w = Retrieve_failed (controller_number (heap w r))"

section \<open>Example configuration\<close>

text \<open>The studios A, B and C at the selector positions 2, 3 and 4, the automat at
  position 1: the dispatcher as \<open>__init__\<close> leaves it.\<close>

definition example_dispatcher :: Dispatcher where
  "example_dispatcher =
     \<lparr>d_x = None, d_y = None, on_air_selector_value = 1, automat_selector_value = 1,
      studios = [Studio ''A'', Studio ''B'', Studio ''C''],
      studios_to_selector_value =
        [Studio ''A'' \<mapsto> 2, Studio ''B'' \<mapsto> 3, Studio ''C'' \<mapsto> 4],
      studio_names =
        [''A'' \<mapsto> Studio ''A'', ''B'' \<mapsto> Studio ''B'', ''C'' \<mapsto> Studio ''C''],
      next_hour_timer = None, immediate_state_timer = None, immediate_release_timer = None,
      machine_state = AUTOMAT_ON_AIR,
      led_status_typed = (\<lambda>_. mk_studio LedStatuses_OFF LedStatuses_OFF LedStatuses_OFF),
      loop_tasks = [], d_log = []\<rparr>"


text \<open>A selector with four positions, controller 42 of the device, observed by two
  callables; nothing is pending and the cache was filled at time 0 of the loop, now at 5.\<close>

definition example_selector :: SymNetController where
  "example_selector =
     \<lparr>controller_number = 42, raw_value = 0, raw_value_time = 0, observer = [7, 8],
      position_count = 4\<rparr>"

definition example_world :: world where
  "example_world =
     \<lparr>callback_queue = [], state_queue = [], futures = (\<lambda>_. Pending), next_future = 0,
      heap = (\<lambda>_. example_selector), controllers = [42 \<mapsto> 0], tasks = [], sent = [],
      log = [], loop_time = 5\<rparr>"

section \<open>Theorems\<close>

subsection \<open>The LED recipes\<close>

text \<open>
  Claim C6. For each of the ten states, the LED recipe attached to the state in the code
  is the row of the specification's table for that state, where every lamp has the
  table's mode (off, on, blinking) and every blinking lamp the table's frequency
  (\<open>BLINK\<close>: 2 Hz, \<open>FAST\<close>: 4 Hz); the states are exactly the ten listed.
\<close>

theorem led_recipes_match_spec_table:
  "shows_row (led_state_target s) (spec_led_table s)
   \<and> (UNIV :: States set) =
       {AUTOMAT_ON_AIR, AUTOMAT_ON_AIR_IMMEDIATE_STATE_X,
        FROM_AUTOMAT_CHANGE_TO_STUDIO_X_ON_NEXT_HOUR, STUDIO_X_ON_AIR,
        FROM_STUDIO_X_CHANGE_TO_AUTOMAT_ON_NEXT_HOUR, STUDIO_X_ON_AIR_IMMEDIATE_STATE,
        STUDIO_X_ON_AIR_IMMEDIATE_RELEASE, FROM_STUDIO_X_CHANGE_TO_STUDIO_Y_ON_NEXT_HOUR,
        STUDIO_X_ON_AIR_STUDIO_Y_TAKEOVER_REQUEST, NOOP}"
proof
  show "shows_row (led_state_target s) (spec_led_table s)"
    by (cases s)
       (simp_all add: shows_row_def shows_triple_def shows_code_def mk_studio_def
          LedStatuses_OFF_def LedStatuses_ON_def LedStatuses_BLINK_def)
next
  show "(UNIV :: States set) =
       {AUTOMAT_ON_AIR, AUTOMAT_ON_AIR_IMMEDIATE_STATE_X,
        FROM_AUTOMAT_CHANGE_TO_STUDIO_X_ON_NEXT_HOUR, STUDIO_X_ON_AIR,
        FROM_STUDIO_X_CHANGE_TO_AUTOMAT_ON_NEXT_HOUR, STUDIO_X_ON_AIR_IMMEDIATE_STATE,
        STUDIO_X_ON_AIR_IMMEDIATE_RELEASE, FROM_STUDIO_X_CHANGE_TO_STUDIO_Y_ON_NEXT_HOUR,
        STUDIO_X_ON_AIR_STUDIO_Y_TAKEOVER_REQUEST, NOOP}"
  proof -
    have "s \<in> {AUTOMAT_ON_AIR, AUTOMAT_ON_AIR_IMMEDIATE_STATE_X,
        FROM_AUTOMAT_CHANGE_TO_STUDIO_X_ON_NEXT_HOUR, STUDIO_X_ON_AIR,
        FROM_STUDIO_X_CHANGE_TO_AUTOMAT_ON_NEXT_HOUR, STUDIO_X_ON_AIR_IMMEDIATE_STATE,
        STUDIO_X_ON_AIR_IMMEDIATE_RELEASE, FROM_STUDIO_X_CHANGE_TO_STUDIO_Y_ON_NEXT_HOUR,
        STUDIO_X_ON_AIR_STUDIO_Y_TAKEOVER_REQUEST, NOOP}" for s :: States
      by (cases s) simp_all
    then show ?thesis by blast
  qed
qed

subsection \<open>The dispatcher\<close>




text \<open>The hour timer and the immediate-state timer are left alone while they run: by
  their starters, and by the callbacks of a state change whose destination names them.\<close>

lemma start_next_hour_timer_running:
  "next_hour_timer d = Some t \<Longrightarrow> \<not> task_done d t \<Longrightarrow> start_next_hour_timer d = d"
  by (simp add: start_next_hour_timer_def)

lemma start_immediate_state_timer_running:
  "immediate_state_timer d = Some t \<Longrightarrow> \<not> task_done d t \<Longrightarrow> start_immediate_state_timer d = d"
  by (simp add: start_immediate_state_timer_def)

lemma task_done_cancel [simp]: "task_done (cancel t' d) t = task_done d t"
  by (auto simp add: task_done_def cancel_def nth_list_update)

lemma task_done_create [simp]: "task_done (snd (create_task co d)) t = task_done d t"
  by (auto simp add: task_done_def create_task_def nth_append)

lemma task_done_fields [simp]:
  "task_done (d\<lparr>d_x := vx\<rparr>) t = task_done d t"
  "task_done (d\<lparr>d_y := vy\<rparr>) t = task_done d t"
  "task_done (d\<lparr>next_hour_timer := n\<rparr>) t = task_done d t"
  "task_done (d\<lparr>immediate_state_timer := n\<rparr>) t = task_done d t"
  "task_done (d\<lparr>immediate_release_timer := n\<rparr>) t = task_done d t"
  by (simp_all add: task_done_def)

lemma timers_cancel [simp]:
  "next_hour_timer (cancel t' d) = next_hour_timer d"
  "immediate_state_timer (cancel t' d) = immediate_state_timer d"
  "immediate_release_timer (cancel t' d) = immediate_release_timer d"
  by (simp_all add: cancel_def)

lemma timers_create [simp]:
  "next_hour_timer (snd (create_task co d)) = next_hour_timer d"
  "immediate_state_timer (snd (create_task co d)) = immediate_state_timer d"
  "immediate_release_timer (snd (create_task co d)) = immediate_release_timer d"
  by (simp_all add: create_task_def)

lemma stop_keeps_others [simp]:
  "next_hour_timer (stop_immediate_state_timer d) = next_hour_timer d"
  "next_hour_timer (stop_immediate_release_timer d) = next_hour_timer d"
  "immediate_state_timer (stop_next_hour_timer d) = immediate_state_timer d"
  "immediate_state_timer (stop_immediate_release_timer d) = immediate_state_timer d"
  "task_done (stop_next_hour_timer d) t = task_done d t"
  "task_done (stop_immediate_state_timer d) t = task_done d t"
  "task_done (stop_immediate_release_timer d) t = task_done d t"
  by (simp_all add: stop_next_hour_timer_def stop_immediate_state_timer_def
        stop_immediate_release_timer_def split: option.splits)

lemma start_keeps_others [simp]:
  "next_hour_timer (start_immediate_state_timer d) = next_hour_timer d"
  "next_hour_timer (start_immediate_release_timer d) = next_hour_timer d"
  "immediate_state_timer (start_next_hour_timer d) = immediate_state_timer d"
  "immediate_state_timer (start_immediate_release_timer d) = immediate_state_timer d"
  "task_done (start_next_hour_timer d) t = task_done d t"
  "task_done (start_immediate_state_timer d) t = task_done d t"
  "task_done (start_immediate_release_timer d) t = task_done d t"
  by (simp_all add: start_next_hour_timer_def start_immediate_state_timer_def
        start_immediate_release_timer_def split_beta)


lemma start_running [simp]:
  "next_hour_timer d = Some t \<Longrightarrow> \<not> task_done d t \<Longrightarrow>
     next_hour_timer (start_next_hour_timer d) = Some t"
  "immediate_state_timer d = Some t \<Longrightarrow> \<not> task_done d t \<Longrightarrow>
     immediate_state_timer (start_immediate_state_timer d) = Some t"
  by (simp_all add: start_next_hour_timer_def start_immediate_state_timer_def)

lemma next_hour_timer_continues:
  assumes "transition_dest event = Some dest" and "contains dest ''next_hour''"
    and "next_hour_timer d = Some t" and "\<not> task_done d t"
  shows "next_hour_timer (state_change_callbacks event d) = Some t"
proof -
  have b: "next_hour_timer (before_state_change event d) = Some t
      \<and> \<not> task_done (before_state_change event d) t"
    using assms by (simp add: before_state_change_def Let_def split: option.splits)
  show ?thesis
    unfolding state_change_callbacks_def
    using b assms(1,2) by (simp add: after_state_change_def Let_def)
qed

lemma immediate_state_timer_continues:
  assumes "transition_dest event = Some dest" and "contains dest ''immediate_state''"
    and "immediate_state_timer d = Some t" and "\<not> task_done d t"
  shows "immediate_state_timer (state_change_callbacks event d) = Some t"
proof -
  have b: "immediate_state_timer (before_state_change event d) = Some t
      \<and> \<not> task_done (before_state_change event d) t"
    using assms by (simp add: before_state_change_def Let_def split: option.splits)
  show ?thesis
    unfolding state_change_callbacks_def
    using b assms(1,2) by (simp add: after_state_change_def Let_def)
qed

text \<open>
  Claim C1, at the immediate-release timer: the dispatcher is in
  \<open>studio_X_on_air_immediate_release\<close>, its immediate-release timer is task 0 of the
  loop and has not completed. Starting the timer again, by itself or through the callbacks
  of a state change whose destination is the same state, creates task 1 and stores it in
  place of task 0, which goes on running.
\<close>

theorem immediate_release_timer_is_restarted:
  "immediate_release_timer
     (example_dispatcher\<lparr>d_x := Some (Studio ''A''),
        machine_state := STUDIO_X_ON_AIR_IMMEDIATE_RELEASE,
        immediate_release_timer := Some 0,
        loop_tasks := [(Immediate_release_timer, Running)]\<rparr>) = Some 0
   \<and> \<not> task_done
     (example_dispatcher\<lparr>d_x := Some (Studio ''A''),
        machine_state := STUDIO_X_ON_AIR_IMMEDIATE_RELEASE,
        immediate_release_timer := Some 0,
        loop_tasks := [(Immediate_release_timer, Running)]\<rparr>) 0
   \<and> immediate_release_timer (start_immediate_release_timer
     (example_dispatcher\<lparr>d_x := Some (Studio ''A''),
        machine_state := STUDIO_X_ON_AIR_IMMEDIATE_RELEASE,
        immediate_release_timer := Some 0,
        loop_tasks := [(Immediate_release_timer, Running)]\<rparr>)) = Some 1
   \<and> immediate_release_timer (state_change_callbacks
       \<lparr>transition_dest = Some ''studio_X_on_air_immediate_release'',
        event_name = ''to_studio_X_on_air_immediate_release'', kw_button_event = None\<rparr>
     (example_dispatcher\<lparr>d_x := Some (Studio ''A''),
        machine_state := STUDIO_X_ON_AIR_IMMEDIATE_RELEASE,
        immediate_release_timer := Some 0,
        loop_tasks := [(Immediate_release_timer, Running)]\<rparr>)) = Some 1
   \<and> loop_tasks (state_change_callbacks
       \<lparr>transition_dest = Some ''studio_X_on_air_immediate_release'',
        event_name = ''to_studio_X_on_air_immediate_release'', kw_button_event = None\<rparr>
     (example_dispatcher\<lparr>d_x := Some (Studio ''A''),
        machine_state := STUDIO_X_ON_AIR_IMMEDIATE_RELEASE,
        immediate_release_timer := Some 0,
        loop_tasks := [(Immediate_release_timer, Running)]\<rparr>))
       = [(Immediate_release_timer, Running), (Immediate_release_timer, Running)]"
  by (simp add: example_dispatcher_def state_change_callbacks_def before_state_change_def
        after_state_change_def start_immediate_release_timer_def task_done_def create_task_def
        stop_next_hour_timer_def stop_immediate_state_timer_def Let_def)


lemma utf8_valid_ascii: "\<forall>b\<in>set bs. b < 128 \<Longrightarrow> utf8_valid bs"
  by (induction bs) simp_all

lemma decode_ascii: "\<forall>c\<in>set data. of_char c < (128::nat) \<Longrightarrow> decode data = Inr data"
  using utf8_valid_ascii [of "map of_char data"] by (simp add: decode_def)

text \<open>The exceptions of the two \<open>except\<close> clauses: an \<open>IOError\<close> of \<open>open\<close>, and a
  \<open>JSONDecodeError\<close> for a file that is text and not JSON. \<open>load\<close> returns with one more
  log record, a warning for \<open>errno\<close> 2 and a critical message otherwise.\<close>

lemma load_catches_io_and_json_errors:
  "load trigger json_loads (Io_fails errno) d =
     (None, d\<lparr>d_log := d_log d @
        [Log (if errno = 2 then WARNING else CRITICAL) ''Could load dispatcher state: %s''
           [''IOError'']]\<rparr>)"
  "decode content = Inr content_str \<Longrightarrow> json_loads content_str = None \<Longrightarrow>
   load trigger json_loads (File_bytes content) d =
     (None, d\<lparr>d_log := d_log d @
        [Log CRITICAL ''Could load dispatcher state: %s'' [''JSONDecodeError'']]\<rparr>)"
  by (simp_all add: load_def load_body_def json_load_def)

text \<open>
  Claim C9. A state file that is malformed because its bytes are not UTF-8, here the
  single byte \<open>0xFF\<close>: \<open>json.load\<close> raises \<open>UnicodeDecodeError\<close> when it reads the file.
  The exception is neither an \<open>IOError\<close> nor a \<open>json.JSONDecodeError\<close>, so no \<open>except\<close>
  clause catches it: it leaves \<open>load\<close>, whatever the state machine and the parser, and
  nothing is logged.
\<close>

theorem load_raises_on_undecodable_file:
  "load trigger json_loads (File_bytes [CHR 0xFF]) d = (Some UnicodeDecodeError, d)"
  by (simp add: load_def load_body_def json_load_def decode_def)

subsection \<open>The controllers\<close>



subsection \<open>The protocol client\<close>

lemma lines_of_NAK: "lines_of (''NAK'' @ [CR]) = [''NAK'']"
  by (simp add: lines_of_def split_on_def CR_def)

lemma lines_of_ACK: "lines_of (''ACK'' @ [CR]) = [''ACK'']"
  by (simp add: lines_of_def split_on_def CR_def)

lemma callback_without_match:
  "callback c data None w = w\<lparr>futures := (futures w)(future c := Raised (no_match_exception (cb_callback c) w))\<rparr>"
  by (cases "cb_callback c") (simp_all add: callback_def assure_callback_def retrieve_callback_def)

lemma push_lines_eq:
  "push_lines ls w =
     w\<lparr>state_queue := state_queue w @ pushed_states ls, log := log w @ push_errors ls\<rparr>"
proof (induction ls arbitrary: w)
  case Nil
  then show ?case by (simp add: pushed_states_def push_errors_def)
next
  case (Cons l ls)
  show ?case
  proof (cases "match_push l")
    case None
    then show ?thesis
      by (simp add: Cons.IH pushed_states_def push_errors_def line_states_def line_errors_def)
  next
    case (Some g)
    then show ?thesis
      by (cases g)
         (simp add: Cons.IH pushed_states_def push_errors_def line_states_def line_errors_def)
  qed
qed

lemma lines_of_two_pushes:
  "lines_of (''#00042=17000'' @ [CR] @ ''#00043=-0001'' @ [CR]) = [''#00042=17000'', ''#00043=-0001'']"
  by (simp add: lines_of_def split_on_def CR_def)

lemma lines_of_malformed_push:
  "lines_of (''#00042=abcd'' @ [CR]) = [''#00042=abcd'']"
  by (simp add: lines_of_def split_on_def CR_def)

lemma match_push_examples:
  "match_push ''#00042=17000'' = Some (''00042'', ''17000'')"
  "match_push ''#00043=-0001'' = Some (''00043'', ''-0001'')"
  "match_push ''#00042=abcd'' = None"
  by (simp_all add: match_push_def is_digit_def at_dollar_def)

lemma py_int_examples:
  "py_int ''00042'' = 42" "py_int ''00043'' = 43" "py_int ''17000'' = 17000" "py_int ''-0001'' = - 1"
  by (simp_all add: py_int_def digits_val_def digit_val_def)

text \<open>The bytes of a datagram are the separators and the bytes of its non-empty lines:
  a datagram whose lines are ASCII decodes to itself.\<close>

lemma split_from_covers:
  "c \<in> set segment \<union> set s \<Longrightarrow> c = sep \<or> (\<exists>l\<in>set (split_from sep segment s). c \<in> set l)"
  by (induction s arbitrary: segment) auto

lemma decode_ascii_lines:
  assumes "\<forall>l\<in>set (lines_of data). \<forall>c\<in>set l. of_char c < (128::nat)"
  shows "decode data = Inr data"
proof (rule decode_ascii, rule ballI)
  fix c assume c: "c \<in> set data"
  from split_from_covers [of c "[]" data CR] c
  consider "c = CR" | l where "l \<in> set (split_on CR data)" "c \<in> set l"
    by (auto simp add: split_on_def)
  then show "of_char c < (128::nat)"
  proof cases
    case 1
    then show ?thesis by (simp add: CR_def)
  next
    case 2
    then have "l \<in> set (lines_of data)" by (auto simp add: lines_of_def)
    with assms 2(2) show ?thesis by blast
  qed
qed

lemma datagram_received_decoded:
  "decode data = Inr data_str \<Longrightarrow> datagram_received w data = Inr (received_str w data_str)"
  by (simp add: datagram_received_def)

lemma decode_NAK: "decode (''NAK'' @ [CR]) = Inr (''NAK'' @ [CR])"
  by (simp add: decode_def CR_def)

lemma decode_ACK: "decode (''ACK'' @ [CR]) = Inr (''ACK'' @ [CR])"
  by (simp add: decode_def CR_def)

text \<open>
  Claim C3. A datagram whose only non-empty line is \<open>NAK\<close>, such as \<open>NAK\r\<close>: with a
  pending callback at the head of the queue, whatever its pattern, expected line count
  and callable, the head callback is called with the body and without a match, which
  rejects its future, and it is taken from the queue; nothing else changes. With an empty
  queue the datagram is logged as an error and nothing else changes. In both cases
  \<open>datagram_received\<close> returns.
\<close>

theorem lone_nak_fails_head_callback:
  assumes "lines_of data = [''NAK'']"
  shows "(callback_queue w = c # cs \<longrightarrow>
            datagram_received w data =
              Inr (w\<lparr>callback_queue := cs,
                futures := (futures w)(future c := Raised (no_match_exception (cb_callback c) w))\<rparr>))
       \<and> (callback_queue w = [] \<longrightarrow>
            datagram_received w data =
              Inr (w\<lparr>log := log w @ [Log ERROR ''Uncaught NAK - this is probably a huge error'' []]\<rparr>))"
proof -
  have "decode data = Inr data" by (rule decode_ascii_lines) (simp add: assms)
  then have "datagram_received w data = Inr (received_str w data)"
    by (rule datagram_received_decoded)
  then show ?thesis using assms by (simp add: received_str_def callback_without_match)
qed

text \<open>\<open>NAK\r\<close> with a callback at the head that has no pattern and expects three lines,
  and with an empty queue.\<close>

theorem lone_nak_fails_head_callback_witness:
  "lines_of (''NAK'' @ [CR]) = [''NAK'']
   \<and> datagram_received
        (example_world\<lparr>callback_queue :=
           [\<lparr>cb_callback = Retrieve_callback 0, expected_lines = 3, regex = None, future = 0\<rparr>,
            \<lparr>cb_callback = Assure_callback 0, expected_lines = 1, regex = Some Assure_regex,
              future = 1\<rparr>]\<rparr>)
        (''NAK'' @ [CR])
      = Inr (example_world\<lparr>callback_queue :=
           [\<lparr>cb_callback = Assure_callback 0, expected_lines = 1, regex = Some Assure_regex,
              future = 1\<rparr>],
          futures := (\<lambda>_. Pending)(0 := Raised (Retrieve_failed 42))\<rparr>)
   \<and> datagram_received example_world (''NAK'' @ [CR])
      = Inr (example_world\<lparr>log := [Log ERROR ''Uncaught NAK - this is probably a huge error'' []]\<rparr>)"
  using
    lone_nak_fails_head_callback [OF lines_of_NAK,
      of "example_world\<lparr>callback_queue :=
           [\<lparr>cb_callback = Retrieve_callback 0, expected_lines = 3, regex = None, future = 0\<rparr>,
            \<lparr>cb_callback = Assure_callback 0, expected_lines = 1, regex = Some Assure_regex,
              future = 1\<rparr>]\<rparr>"
         "\<lparr>cb_callback = Retrieve_callback 0, expected_lines = 3, regex = None, future = 0\<rparr>"
         "[\<lparr>cb_callback = Assure_callback 0, expected_lines = 1, regex = Some Assure_regex,
              future = 1\<rparr>]"]
    lone_nak_fails_head_callback [OF lines_of_NAK, of example_world undefined "[]"]
    lines_of_NAK
  by (simp add: example_world_def example_selector_def)

text \<open>
  The lines that \<open>match_push\<close> accepts are those of the pattern
  \<open>^#([0-9]{5})=(-?[0-9]{4,5})$\<close>: \<open>#\<close>, five digits, \<open>=\<close>, an optional minus sign, four or
  five digits, and then the end of the line or a single newline before it; the groups are
  the five digits and the signed digits.
\<close>

lemma startswith_Cons: "startswith s [c] \<longleftrightarrow> (\<exists>t. s = c # t)"
  by (cases s) auto

lemma not_digit_minus: "\<not> is_digit CHR ''-''" "\<not> is_digit (CHR 0x0A)"
  by (simp_all add: is_digit_def)

lemma match_push_complete:
  assumes "length g1 = 5" "list_all is_digit g1" "sign = [] \<or> sign = ''-''"
    "length ds = 4 \<or> length ds = 5" "list_all is_digit ds" "nl = [] \<or> nl = [CHR 0x0A]"
  shows "match_push (CHR ''#'' # g1 @ ''='' @ sign @ ds @ nl) = Some (g1, sign @ ds)"
proof -
  obtain d dr where ds: "ds = d # dr" using assms(4) by (cases ds) auto
  have d: "is_digit d" using assms(5) ds by simp
  then have dm: "d \<noteq> CHR ''-''" using not_digit_minus by auto
  have r1: "drop 6 (g1 @ ''='' @ sign @ ds @ nl) = sign @ ds @ nl" using assms(1) by simp
  have sg: "(if startswith (sign @ ds @ nl) ''-'' then ''-'' else []) = sign"
    using assms(3) dm by (auto simp add: ds)
  have r2: "drop (length sign) (sign @ ds @ nl) = ds @ nl" by simp
  have tail: "(if length (take 5 (ds @ nl)) = 5 \<and> list_all is_digit (take 5 (ds @ nl))
               \<and> at_dollar (drop 5 (ds @ nl))
              then Some (g1, sign @ take 5 (ds @ nl))
            else if length (take 4 (ds @ nl)) = 4 \<and> list_all is_digit (take 4 (ds @ nl))
               \<and> at_dollar (drop 4 (ds @ nl))
              then Some (g1, sign @ take 4 (ds @ nl))
            else None) = Some (g1, sign @ ds)"
    using assms(4,5,6) not_digit_minus(2) by (auto simp add: at_dollar_def)
  have t5: "take 5 (g1 @ ''='' @ sign @ ds @ nl) = g1" using assms(1) by simp
  have d5: "startswith (drop 5 (g1 @ ''='' @ sign @ ds @ nl)) ''='' = True"
    using assms(1) by simp
  have g: "length g1 = 5 = True" "list_all is_digit g1 = True" using assms(1,2) by simp_all
  show ?thesis
    unfolding match_push_def list.case Let_def t5 d5 r1 sg r2 tail g by simp
qed


lemma match_push_sound:
  assumes "match_push line = Some (g1, g2)"
  shows "\<exists>sign ds nl. line = CHR ''#'' # g1 @ ''='' @ sign @ ds @ nl
     \<and> length g1 = 5 \<and> list_all is_digit g1 \<and> (sign = [] \<or> sign = ''-'')
     \<and> (length ds = 4 \<or> length ds = 5) \<and> list_all is_digit ds
     \<and> (nl = [] \<or> nl = [CHR 0x0A]) \<and> g2 = sign @ ds"
proof -
  obtain c r0 where line: "line = c # r0"
    using assms by (cases line) (simp_all add: match_push_def)
  define r1 where "r1 = drop 6 r0"
  define sign where "sign = (if startswith r1 ''-'' then ''-'' else [])"
  define r2 where "r2 = drop (length sign) r1"
  have m: "match_push line =
     (if c = CHR ''#'' \<and> length (take 5 r0) = 5 \<and> list_all is_digit (take 5 r0)
          \<and> startswith (drop 5 r0) ''=''
      then (if length (take 5 r2) = 5 \<and> list_all is_digit (take 5 r2) \<and> at_dollar (drop 5 r2)
              then Some (take 5 r0, sign @ take 5 r2)
            else if length (take 4 r2) = 4 \<and> list_all is_digit (take 4 r2)
               \<and> at_dollar (drop 4 r2)
              then Some (take 5 r0, sign @ take 4 r2)
            else None)
      else None)"
    unfolding match_push_def line list.case Let_def r1_def sign_def r2_def by (rule refl)
  from assms m have h: "c = CHR ''#''" "length (take 5 r0) = 5" "list_all is_digit (take 5 r0)"
    "startswith (drop 5 r0) ''=''"
    by (auto split: if_splits)
  from assms m h have t: "(if length (take 5 r2) = 5 \<and> list_all is_digit (take 5 r2) \<and> at_dollar (drop 5 r2)
              then Some (take 5 r0, sign @ take 5 r2)
            else if length (take 4 r2) = 4 \<and> list_all is_digit (take 4 r2)
               \<and> at_dollar (drop 4 r2)
              then Some (take 5 r0, sign @ take 4 r2)
            else None) = Some (g1, g2)"
    by simp
  then have g1: "g1 = take 5 r0" by (auto split: if_splits)
  from h(4) obtain t0 where d5: "drop 5 r0 = CHR ''='' # t0" by (auto simp add: startswith_Cons)
  have "drop 6 r0 = drop 1 (drop 5 r0)" by simp
  then have t0: "t0 = r1" by (simp add: d5 r1_def)
  have "r0 = take 5 r0 @ drop 5 r0" by simp
  then have r0: "r0 = g1 @ ''='' @ r1" by (simp add: d5 t0 g1)
  have r1: "r1 = sign @ r2"
  proof (cases "startswith r1 ''-''")
    case True
    then obtain u where "r1 = CHR ''-'' # u" by (auto simp add: startswith_Cons)
    then show ?thesis by (simp add: r2_def sign_def)
  next
    case False
    then show ?thesis by (simp add: r2_def sign_def)
  qed
  have sg: "sign = [] \<or> sign = ''-''" by (simp add: sign_def)
  from t have "\<exists>k. (k = 4 \<or> k = 5) \<and> length (take k r2) = k \<and> list_all is_digit (take k r2)
      \<and> at_dollar (drop k r2) \<and> g2 = sign @ take k r2"
    by (auto split: if_splits)
  then obtain k where k: "k = 4 \<or> k = 5" "length (take k r2) = k" "list_all is_digit (take k r2)"
    "at_dollar (drop k r2)" "g2 = sign @ take k r2" by blast
  have "r2 = take k r2 @ drop k r2" by simp
  then have "line = CHR ''#'' # g1 @ ''='' @ sign @ take k r2 @ drop k r2"
    using line h(1) r0 r1 by simp
  moreover have "length g1 = 5" "list_all is_digit g1" using h(2,3) g1 by simp_all
  moreover have "length (take k r2) = 4 \<or> length (take k r2) = 5" using k(1,2) by auto
  moreover have "drop k r2 = [] \<or> drop k r2 = [CHR 0x0A]" using k(4) by (simp add: at_dollar_def)
  ultimately show ?thesis using sg k(3,5) by blast
qed

text \<open>
  Claim C5, as amended. A datagram that decodes as UTF-8, that the loop over the pending
  callbacks did not consume and that is not a lone \<open>ACK\<close> or \<open>NAK\<close>: the push channel
  receives, in the order of the lines, one controller state for every line that matches
  the pattern of a push, and the log one error for every line that does not; nothing else
  changes, and \<open>datagram_received\<close> returns.
\<close>

theorem pushed_lines_are_enqueued_in_order:
  assumes "decode data = Inr data_str"
    and "for_callbacks w data_str (lines_of data_str) [] (callback_queue w) = None"
    and "lines_of data_str \<noteq> [''NAK'']" and "lines_of data_str \<noteq> [''ACK'']"
  shows "datagram_received w data =
     Inr (w\<lparr>state_queue := state_queue w @ pushed_states (lines_of data_str),
            log := log w @ push_errors (lines_of data_str)\<rparr>)"
proof -
  have n: "(length (lines_of data_str) = 1 \<and> hd (lines_of data_str) = ''NAK'') = False"
    using assms(3) by (cases "lines_of data_str") auto
  have a: "(length (lines_of data_str) = 1 \<and> hd (lines_of data_str) = ''ACK'') = False"
    using assms(4) by (cases "lines_of data_str") auto
  have "received_str w data_str = push_lines (lines_of data_str) w"
    unfolding received_str_def Let_def n a using assms(2) by simp
  then have "received_str w data_str =
     w\<lparr>state_queue := state_queue w @ pushed_states (lines_of data_str),
       log := log w @ push_errors (lines_of data_str)\<rparr>"
    by (simp only: push_lines_eq)
  then show ?thesis using datagram_received_decoded [OF assms(1), of w] by simp
qed

text \<open>The two datagrams of the specification, with no callback pending.\<close>

theorem pushed_lines_are_enqueued_in_order_witness:
  "datagram_received example_world (''#00042=17000'' @ [CR] @ ''#00043=-0001'' @ [CR])
     = Inr (example_world\<lparr>state_queue :=
         [\<lparr>cs_controller_number = 42, cs_controller_value = 17000\<rparr>,
          \<lparr>cs_controller_number = 43, cs_controller_value = - 1\<rparr>]\<rparr>)
   \<and> datagram_received example_world (''#00042=abcd'' @ [CR])
     = Inr (example_world\<lparr>log := [Log ERROR ''error in in the received line <%s>'' [''#00042=abcd'']]\<rparr>)"
proof -
  have q: "callback_queue example_world = []" by (simp add: example_world_def)
  have s: "state_queue example_world = []" "log example_world = []"
    by (simp_all add: example_world_def)
  have d1: "decode (''#00042=17000'' @ [CR] @ ''#00043=-0001'' @ [CR])
      = Inr (''#00042=17000'' @ [CR] @ ''#00043=-0001'' @ [CR])"
    by (simp add: decode_def CR_def)
  have d2: "decode (''#00042=abcd'' @ [CR]) = Inr (''#00042=abcd'' @ [CR])"
    by (simp add: decode_def CR_def)
  from pushed_lines_are_enqueued_in_order [OF d1, of example_world]
  have a: "datagram_received example_world (''#00042=17000'' @ [CR] @ ''#00043=-0001'' @ [CR])
     = Inr (example_world\<lparr>state_queue :=
         [\<lparr>cs_controller_number = 42, cs_controller_value = 17000\<rparr>,
          \<lparr>cs_controller_number = 43, cs_controller_value = - 1\<rparr>]\<rparr>)"
    unfolding lines_of_two_pushes q
    by (simp add: s pushed_states_def push_errors_def line_states_def line_errors_def
          match_push_examples py_int_examples)
  from pushed_lines_are_enqueued_in_order [OF d2, of example_world]
  have b: "datagram_received example_world (''#00042=abcd'' @ [CR])
     = Inr (example_world\<lparr>log := [Log ERROR ''error in in the received line <%s>'' [''#00042=abcd'']]\<rparr>)"
    unfolding lines_of_malformed_push q
    by (simp add: s pushed_states_def push_errors_def line_states_def line_errors_def
          match_push_examples)
  from a b show ?thesis by (rule conjI)
qed

text \<open>
  The claim as stated, for every datagram, fails: the datagram \<open>#00042=17000\r\<close>,
  \<open>0xFF\<close>, \<open>\r\<close> meets no pending callback and is not a lone \<open>ACK\<close> or \<open>NAK\<close>; its
  first line matches the pattern of a push and its second does not. \<open>data.decode()\<close>
  raises \<open>UnicodeDecodeError\<close>: no controller state is enqueued and no error is logged.
\<close>

theorem undecodable_datagram_is_not_pushed:
  "callback_queue example_world = []
   \<and> lines_of (''#00042=17000'' @ [CR] @ [CHR 0xFF] @ [CR]) = [''#00042=17000'', [CHR 0xFF]]
   \<and> match_push ''#00042=17000'' = Some (''00042'', ''17000'')
   \<and> match_push [CHR 0xFF] = None
   \<and> datagram_received example_world (''#00042=17000'' @ [CR] @ [CHR 0xFF] @ [CR])
       = Inl UnicodeDecodeError"
proof -
  have "decode (''#00042=17000'' @ [CR] @ [CHR 0xFF] @ [CR]) = Inl UnicodeDecodeError"
    by (simp add: decode_def CR_def)
  then have "datagram_received example_world (''#00042=17000'' @ [CR] @ [CHR 0xFF] @ [CR])
       = Inl UnicodeDecodeError"
    by (simp only: datagram_received_def sum.case)
  moreover have "lines_of (''#00042=17000'' @ [CR] @ [CHR 0xFF] @ [CR])
      = [''#00042=17000'', [CHR 0xFF]]"
    by (simp add: lines_of_def split_on_def CR_def)
  moreover have "match_push [CHR 0xFF] = None" by (simp add: match_push_def)
  moreover have "callback_queue example_world = []" by (simp add: example_world_def)
  ultimately show ?thesis using match_push_examples(1) by simp
qed

subsection \<open>Floating point: the error of one rounding\<close>

lemma pow2_powi: "pow2 e = 2 powi e"
  by (simp add: pow2_def power_int_def power_one_over inverse_eq_divide)

lemma pow2_pos: "0 < pow2 e"
  by (simp add: pow2_powi)

lemma pow2_add: "pow2 (a + b) = pow2 a * pow2 b"
  by (simp add: pow2_powi power_int_add)

lemma pow2_strict_mono: "a < b \<Longrightarrow> pow2 a < pow2 b"
  by (simp add: pow2_powi power_int_strict_increasing)

lemma pow2_mono: "a \<le> b \<Longrightarrow> pow2 a \<le> pow2 b"
  by (simp add: pow2_powi power_int_increasing)

lemma pow2_less_iff: "pow2 a < pow2 b \<longleftrightarrow> a < b"
  using pow2_strict_mono [of a b] pow2_mono [of b a] by (auto simp: not_less [symmetric])

lemma pow2_le_iff: "pow2 a \<le> pow2 b \<longleftrightarrow> a \<le> b"
  using pow2_strict_mono [of b a] pow2_mono [of a b] by (auto simp: not_le [symmetric])

lemma pow2_nat: "pow2 (int n) = 2 ^ n"
  by (simp add: pow2_def)

lemma bitlen_nat_bounds:
  "0 < n \<Longrightarrow> 2 ^ (bitlen_nat n - 1) \<le> n \<and> n < 2 ^ bitlen_nat n"
proof (induction n rule: bitlen_nat.induct)
  case (1 n)
  show ?case
  proof (cases "n div 2 = 0")
    case True
    with "1.prems" have "n = 1" by (simp add: div_eq_0_iff) 
    then show ?thesis by (simp add: bitlen_nat.simps)
  next
    case False
    then have pos: "0 < n div 2" by simp
    from "1.prems" have n0: "n \<noteq> 0" by simp
    from "1.IH"[OF n0 pos]
    have ih: "2 ^ (bitlen_nat (n div 2) - 1) \<le> n div 2" "n div 2 < 2 ^ bitlen_nat (n div 2)"
      by simp_all
    have bl: "bitlen_nat n = Suc (bitlen_nat (n div 2))"
      using n0 by (subst bitlen_nat.simps) simp
    have blpos: "0 < bitlen_nat (n div 2)"
      using pos by (subst bitlen_nat.simps) simp
    then obtain k where k: "bitlen_nat (n div 2) = Suc k"
      by (cases "bitlen_nat (n div 2)") simp_all
    from ih k have "2 ^ k \<le> n div 2" by simp
    then have "2 * 2 ^ k \<le> n" by linarith
    moreover from ih have "n < 2 * 2 ^ bitlen_nat (n div 2)" by linarith
    ultimately show ?thesis by (simp add: bl k)
  qed
qed


lemma ilog2_bounds:
  assumes "0 < q"
  shows "pow2 (ilog2 q) \<le> q \<and> q < pow2 (ilog2 q + 1)"
proof -
  obtain a b where ab: "quotient_of q = (a, b)" by (cases "quotient_of q")
  then have bpos: "0 < b" by (rule quotient_of_denom_pos)
  have q: "q = of_int a / of_int b" using ab by (rule quotient_of_div)
  have apos: "0 < a" using assms bpos q by (simp add: zero_less_divide_iff)
  define la where "la = bitlen_nat (nat a)"
  define lb where "lb = bitlen_nat (nat b)"
  define k where "k = int la - int lb"
  have ba: "2 ^ (la - 1) \<le> nat a" "nat a < 2 ^ la"
    using bitlen_nat_bounds [of "nat a"] apos by (simp_all add: la_def)
  have bb: "2 ^ (lb - 1) \<le> nat b" "nat b < 2 ^ lb"
    using bitlen_nat_bounds [of "nat b"] bpos by (simp_all add: lb_def)
  have lapos: "0 < la" using ba(2) apos by (cases la) simp_all
  have lbpos: "0 < lb" using bb(2) bpos by (cases lb) simp_all
  have ra: "(2::rat) ^ (la - 1) \<le> of_int a" "of_int a < (2::rat) ^ la"
  proof -
    have "of_nat (2 ^ (la - 1)) \<le> (of_nat (nat a) :: rat)" using ba(1) by (simp only: of_nat_le_iff)
    then show "(2::rat) ^ (la - 1) \<le> of_int a" using apos by simp
    have "(of_nat (nat a) :: rat) < of_nat (2 ^ la)" using ba(2) by (simp only: of_nat_less_iff)
    then show "of_int a < (2::rat) ^ la" using apos by simp
  qed
  have rb: "(2::rat) ^ (lb - 1) \<le> of_int b" "of_int b < (2::rat) ^ lb"
  proof -
    have "of_nat (2 ^ (lb - 1)) \<le> (of_nat (nat b) :: rat)" using bb(1) by (simp only: of_nat_le_iff)
    then show "(2::rat) ^ (lb - 1) \<le> of_int b" using bpos by simp
    have "(of_nat (nat b) :: rat) < of_nat (2 ^ lb)" using bb(2) by (simp only: of_nat_less_iff)
    then show "of_int b < (2::rat) ^ lb" using bpos by simp
  qed
  have rbpos: "(0::rat) < of_int b" using bpos by simp
  have upper: "q < pow2 (k + 1)"
  proof -
    have e1: "pow2 (int la) = pow2 (k + 1) * pow2 (int (lb - 1))"
      using lbpos by (simp add: pow2_add [symmetric] k_def of_nat_diff)
    have "of_int a < (2::rat) ^ la" by (rule ra(2))
    also have "(2::rat) ^ la = pow2 (int la)" by (simp only: pow2_nat)
    also have "\<dots> = pow2 (k + 1) * pow2 (int (lb - 1))" by (rule e1)
    also have "\<dots> = pow2 (k + 1) * 2 ^ (lb - 1)" by (simp only: pow2_nat)
    also have "\<dots> \<le> pow2 (k + 1) * of_int b"
      by (rule mult_left_mono [OF rb(1)]) (rule less_imp_le [OF pow2_pos])
    finally have "of_int a < pow2 (k + 1) * of_int b" .
    then show ?thesis using rbpos by (simp only: q pos_divide_less_eq)
  qed
  have lower: "pow2 (k - 1) < q"
  proof -
    have e1: "pow2 (k - 1) * pow2 (int lb) = pow2 (int (la - 1))"
      using lapos by (simp add: pow2_add [symmetric] k_def of_nat_diff)
    have "pow2 (k - 1) * of_int b < pow2 (k - 1) * 2 ^ lb"
      by (rule mult_strict_left_mono [OF rb(2) pow2_pos])
    also have "\<dots> = pow2 (k - 1) * pow2 (int lb)" by (simp only: pow2_nat)
    also have "\<dots> = pow2 (int (la - 1))" by (rule e1)
    also have "\<dots> = 2 ^ (la - 1)" by (simp only: pow2_nat)
    also have "\<dots> \<le> of_int a" by (rule ra(1))
    finally have "pow2 (k - 1) * of_int b < of_int a" .
    then show ?thesis using rbpos by (simp only: q pos_less_divide_eq)
  qed
  have il: "ilog2 q = (if pow2 k \<le> q then k else k - 1)"
    by (simp add: ilog2_def ab Let_def k_def la_def lb_def)
  show ?thesis
  proof (cases "pow2 k \<le> q")
    case True
    then show ?thesis using upper by (simp add: il)
  next
    case False
    then show ?thesis using lower by (simp add: il)
  qed
qed

lemma ilog2_unique:
  assumes "0 < q" "pow2 e \<le> q" "q < pow2 (e + 1)"
  shows "ilog2 q = e"
proof -
  from ilog2_bounds [OF assms(1)]
  have b: "pow2 (ilog2 q) \<le> q" "q < pow2 (ilog2 q + 1)" by simp_all
  have "pow2 e < pow2 (ilog2 q + 1)" using assms(2) b(2) by simp
  then have "e < ilog2 q + 1" by (simp add: pow2_less_iff)
  moreover have "pow2 (ilog2 q) < pow2 (e + 1)" using assms(3) b(1) by simp
  then have "ilog2 q < e + 1" by (simp add: pow2_less_iff)
  ultimately show ?thesis by simp
qed

lemma py_round_error: "\<bar>of_int (py_round q) - q\<bar> \<le> 1 / 2"
proof -
  have "of_int \<lfloor>q\<rfloor> \<le> q" "q < of_int \<lfloor>q\<rfloor> + 1" by linarith+
  then show ?thesis
    by (auto simp add: py_round_def Let_def)
qed

lemma py_round_unique:
  assumes "\<bar>q - of_int k\<bar> < 1 / 2"
  shows "py_round q = k"
proof -
  have "\<bar>of_int (py_round q) - q\<bar> \<le> 1 / 2" by (rule py_round_error)
  with assms have "\<bar>(of_int (py_round q) :: rat) - of_int k\<bar> < 1" by linarith
  then have "\<bar>(of_int (py_round q - k) :: rat)\<bar> < 1" by simp
  then have "\<bar>py_round q - k\<bar> < 1" by (simp only: of_int_abs [symmetric] of_int_less_1_iff)
  then show ?thesis by simp
qed


lemma fl_eq:
  assumes "pow2 (e + 52) \<le> \<bar>q\<bar>" "\<bar>q\<bar> < pow2 (e + 53)" "- 1074 \<le> e"
  shows "fl q = of_int (py_round (q / pow2 e)) * pow2 e"
proof -
  have pos: "0 < \<bar>q\<bar>" using assms(1) pow2_pos [of "e + 52"] by linarith
  have "ilog2 \<bar>q\<bar> = e + 52"
    using pos assms(1) assms(2) by (intro ilog2_unique) (simp_all add: add.assoc)
  then have "max (ilog2 \<bar>q\<bar> - 52) (- 1074) = e" using assms(3) by simp
  moreover have "q \<noteq> 0" using pos by simp
  ultimately show ?thesis by (simp add: fl_def Let_def)
qed

lemma fl_error:
  assumes "pow2 (- 1022) \<le> \<bar>q\<bar>"
  shows "\<bar>fl q - q\<bar> \<le> \<bar>q\<bar> * pow2 (- 53)"
proof -
  have pos: "0 < \<bar>q\<bar>" using assms pow2_pos [of "- 1022"] by linarith
  define i where "i = ilog2 \<bar>q\<bar>"
  define s where "s = pow2 (i - 52)"
  have spos: "0 < s" by (simp add: s_def pow2_pos)
  from ilog2_bounds [OF pos]
  have b: "pow2 i \<le> \<bar>q\<bar>" "\<bar>q\<bar> < pow2 (i + 1)" by (simp_all add: i_def)
  have "pow2 (- 1022) < pow2 (i + 1)" using assms b(2) by simp
  then have "- 1022 < i + 1" by (simp add: pow2_less_iff)
  then have e: "- 1074 \<le> i - 52" by simp
  have "pow2 (i - 52 + 52) \<le> \<bar>q\<bar>" "\<bar>q\<bar> < pow2 (i - 52 + 53)"
    using b by (simp_all add: add.commute)
  from fl_eq [OF this e]
  have f: "fl q = of_int (py_round (q / s)) * s" by (simp add: s_def)
  have "\<bar>fl q - q\<bar> = \<bar>(of_int (py_round (q / s)) - q / s) * s\<bar>"
    using spos by (simp add: f left_diff_distrib)
  also have "\<dots> = \<bar>of_int (py_round (q / s)) - q / s\<bar> * s"
    using spos by (simp add: abs_mult)
  also have "\<dots> \<le> (1 / 2) * s"
    using py_round_error [of "q / s"] spos by (intro mult_right_mono) simp_all
  also have "\<dots> = pow2 i * pow2 (- 53)"
  proof -
    have "pow2 i * pow2 (- 53) = pow2 (i - 52 + (- 1))"
      by (simp add: pow2_add [symmetric])
    also have "\<dots> = s * pow2 (- 1)" by (simp only: pow2_add s_def)
    also have "\<dots> = (1 / 2) * s" by (simp add: pow2_def)
    finally show ?thesis by simp
  qed
  also have "\<dots> \<le> \<bar>q\<bar> * pow2 (- 53)"
    using b(1) pow2_pos [of "- 53"] by (intro mult_right_mono) simp_all
  finally show ?thesis .
qed

lemma fl_0: "fl 0 = 0"
  by (simp add: fl_def)

lemma py_round_of_int: "py_round (of_int k) = k"
  by (rule py_round_unique) simp

lemma py_round_divide:
  assumes "0 < b"
  shows "py_round (of_int a / of_int b) =
     (if 2 * (a mod b) < b then a div b
      else if b < 2 * (a mod b) then a div b + 1
      else if even (a div b) then a div b else a div b + 1)"
proof -
  have bpos: "(0::rat) < of_int b" using assms by simp
  have fl: "\<lfloor>(of_int a / of_int b :: rat)\<rfloor> = a div b" by (rule floor_divide_of_int_eq)
  have "(of_int a :: rat) = of_int (a div b * b + a mod b)" by simp
  also have "\<dots> = of_int (a div b) * of_int b + of_int (a mod b)" by (simp only: of_int_add of_int_mult)
  finally have "(of_int a / of_int b :: rat) = of_int (a div b) + of_int (a mod b) / of_int b"
    using bpos by (simp add: field_simps)
  then have d: "(of_int a / of_int b :: rat) - of_int (a div b) = of_int (a mod b) / of_int b"
    by simp
  have c1: "(of_int (a mod b) / of_int b < (1 / 2 :: rat)) = (2 * (a mod b) < b)"
  proof -
    have "(of_int (a mod b) / of_int b < (1 / 2 :: rat)) = ((of_int (2 * (a mod b)) :: rat) < of_int b)"
      using bpos by (simp add: field_simps)
    then show ?thesis by (simp only: of_int_less_iff)
  qed
  have c2: "((1 / 2 :: rat) < of_int (a mod b) / of_int b) = (b < 2 * (a mod b))"
  proof -
    have "((1 / 2 :: rat) < of_int (a mod b) / of_int b) = ((of_int b :: rat) < of_int (2 * (a mod b)))"
      using bpos by (simp add: field_simps)
    then show ?thesis by (simp only: of_int_less_iff)
  qed
  show ?thesis
    unfolding py_round_def Let_def fl d c1 c2 ..
qed

lemma py_round_numeral_divide:
  "py_round (numeral a / numeral b) =
     (if 2 * (numeral a mod numeral b) < (numeral b :: int) then numeral a div numeral b
      else if (numeral b :: int) < 2 * (numeral a mod numeral b) then numeral a div numeral b + 1
      else if even (numeral a div numeral b :: int) then numeral a div numeral b
      else numeral a div numeral b + 1)"
  using py_round_divide [of "numeral b" "numeral a"] by simp

lemma py_round_numeral: "py_round (numeral a) = numeral a"
  using py_round_of_int [of "numeral a"] by simp

lemma to_float_0: "to_float 0 = Inr 0"
  using pow2_pos [of 1024] by (simp add: to_float_def fl_0)

lemma to_float_near:
  assumes "1 / 1048576 \<le> q" "q \<le> M" "M \<le> 1048576"
  shows "to_float q = Inr (fl q)" and "\<bar>fl q - q\<bar> \<le> M / 9007199254740992"
proof -
  have qpos: "0 < q" using assms(1) by simp
  have "pow2 (- 1022) \<le> pow2 (- 20)" by (rule pow2_mono) simp
  also have "pow2 (- 20) = 1 / 1048576" by (simp add: pow2_def)
  finally have "pow2 (- 1022) \<le> \<bar>q\<bar>" using assms(1) qpos by simp
  from fl_error [OF this] have "\<bar>fl q - q\<bar> \<le> q * pow2 (- 53)" using qpos by simp
  also have "\<dots> \<le> M * pow2 (- 53)"
    using assms(2) pow2_pos [of "- 53"] by (intro mult_right_mono) simp_all
  also have "\<dots> = M / 9007199254740992" by (simp add: pow2_def)
  finally show e: "\<bar>fl q - q\<bar> \<le> M / 9007199254740992" .
  have "\<bar>fl q\<bar> \<le> q + M / 9007199254740992" using e qpos by linarith
  also have "\<dots> \<le> 1048576 + 1048576 / 9007199254740992" using assms(2,3) by simp
  also have "\<dots> < 2 ^ 21" by simp
  also have "(2::rat) ^ 21 = pow2 21" by (simp add: pow2_def)
  also have "pow2 21 < pow2 1024" by (rule pow2_strict_mono) simp
  finally have "\<not> pow2 1024 \<le> \<bar>fl q\<bar>" by simp
  then show "to_float q = Inr (fl q)" by (simp add: to_float_def Let_def)
qed

lemma mult_error:
  fixes a b a' b' :: rat
  assumes "\<bar>a - a'\<bar> \<le> da" "\<bar>b - b'\<bar> \<le> db" "\<bar>a'\<bar> \<le> A" "\<bar>b\<bar> \<le> B"
  shows "\<bar>a * b - a' * b'\<bar> \<le> da * B + A * db"
proof -
  have da0: "0 \<le> da" using assms(1) by linarith
  have A0: "0 \<le> A" using assms(3) by linarith
  have "a * b - a' * b' = (a - a') * b + a' * (b - b')" by (simp add: algebra_simps)
  then have "\<bar>a * b - a' * b'\<bar> \<le> \<bar>(a - a') * b\<bar> + \<bar>a' * (b - b')\<bar>"
    by (simp only: abs_triangle_ineq)
  also have "\<dots> = \<bar>a - a'\<bar> * \<bar>b\<bar> + \<bar>a'\<bar> * \<bar>b - b'\<bar>" by (simp only: abs_mult)
  also have "\<dots> \<le> da * B + A * db"
    using assms da0 A0 by (intro add_mono mult_mono) simp_all
  finally show ?thesis .
qed

subsection \<open>Floating point: the selector mapping\<close>

lemma position_to_raw_near:
  assumes "1 \<le> b" "b \<le> 1048576" "0 \<le> a" "a \<le> b"
  shows "\<exists>raw. position_to_raw (b + 1) (a + 1) = Inr raw
     \<and> \<bar>of_int raw - 65535 * (of_int a / of_int b :: rat)\<bar> \<le> 1 / 2 + 131071 / 9007199254740992"
proof (cases "a = 0")
  case True
  have "py_round 0 = 0" using py_round_of_int [of 0] by simp
  then show ?thesis using assms(1) True
    by (simp add: position_to_raw_def to_float_0)
next
  case False
  define x0 :: rat where "x0 = of_int a / of_int b"
  have Bpos: "(0::rat) < of_int b" using assms(1) by simp
  have A1: "(1::rat) \<le> of_int a" using False assms(3) by simp
  have B2: "(of_int b :: rat) \<le> 1048576" using assms(2) by simp
  have AB: "(of_int a :: rat) \<le> of_int b" using assms(4) by simp
  have x0_le: "x0 \<le> 1" using Bpos AB by (simp add: x0_def)
  have x0_ge: "1 / 1048576 \<le> x0"
  proof -
    have "1 / 1048576 \<le> 1 / (of_int b :: rat)" using Bpos B2 by (simp add: frac_le)
    also have "\<dots> \<le> of_int a / of_int b" using Bpos A1 by (simp add: divide_right_mono)
    finally show ?thesis by (simp add: x0_def)
  qed
  from to_float_near [OF x0_ge x0_le]
  have q: "to_float x0 = Inr (fl x0)" "\<bar>fl x0 - x0\<bar> \<le> 1 / 9007199254740992" by simp_all
  define q where "q = fl x0"
  have q1: "1 / 1048576 \<le> q * 65535" using q(2) x0_ge unfolding q_def by linarith
  have q2: "q * 65535 \<le> 65536" using q(2) x0_le unfolding q_def by linarith
  from to_float_near [OF q1 q2]
  have v: "to_float (q * 65535) = Inr (fl (q * 65535))"
    "\<bar>fl (q * 65535) - q * 65535\<bar> \<le> 65536 / 9007199254740992" by simp_all
  have "position_to_raw (b + 1) (a + 1) = Inr (py_round (fl (q * 65535)))"
    using assms(1) q(1) v(1) by (simp add: position_to_raw_def x0_def q_def)
  moreover have "\<bar>of_int (py_round (fl (q * 65535))) - 65535 * x0\<bar>
      \<le> 1 / 2 + 131071 / 9007199254740992"
    using py_round_error [of "fl (q * 65535)"] v(2) q(2) unfolding q_def by linarith
  ultimately show ?thesis by (simp add: x0_def)
qed

lemma raw_to_position_near:
  assumes "1 \<le> b" "b \<le> 65535" "0 \<le> raw" "raw \<le> 65536"
  shows "\<exists>u. raw_to_position (b + 1) raw = Inr (py_round u)
     \<and> \<bar>u - (of_int raw * of_int b / 65535 + 1)\<bar> \<le> 524288 / 9007199254740992"
proof -
  have B1: "(1::rat) \<le> of_int b" using assms(1) by simp
  have B2: "(of_int b :: rat) \<le> 65535" using assms(2) by simp
  have "1 / 1048576 \<le> (of_int b :: rat)" using B1 by simp
  from to_float_near [OF this B2]
  have m: "to_float (of_int b) = Inr (fl (of_int b))"
    "\<bar>fl (of_int b) - of_int b\<bar> \<le> 65535 / 9007199254740992" by simp_all
  have "(1 / 1048576 :: rat) \<le> 1" by simp
  from to_float_near [OF this, of 1]
  have one: "to_float 1 = Inr (fl 1)" "\<bar>fl 1 - 1\<bar> \<le> 1 / 9007199254740992" by simp_all
  show ?thesis
  proof (cases "raw = 0")
    case True
    have "raw_to_position (b + 1) raw = Inr (py_round (fl 1))"
      using True m(1) one(1) by (simp add: raw_to_position_def to_float_0)
    moreover have "\<bar>fl 1 - (of_int raw * of_int b / 65535 + 1)\<bar> \<le> 524288 / 9007199254740992"
      using one(2) True by simp
    ultimately show ?thesis by blast
  next
    case False
    define r :: rat where "r = of_int raw / 65535"
    define M :: rat where "M = fl (of_int b)"
    have R1: "(1::rat) \<le> of_int raw" using False assms(3) by simp
    have R2: "(of_int raw :: rat) \<le> 65536" using assms(4) by simp
    have r_ge: "1 / 65535 \<le> r" using R1 by (simp add: r_def)
    have r_le: "r \<le> 2" using R2 by (simp add: r_def)
    have "1 / 1048576 \<le> r" using r_ge by simp
    from to_float_near [OF this r_le]
    have q: "to_float r = Inr (fl r)" "\<bar>fl r - r\<bar> \<le> 2 / 9007199254740992" by simp_all
    define q where "q = fl r"
    have Mabs: "\<bar>M\<bar> \<le> 65536" using m(2) B1 B2 unfolding M_def by linarith
    have rabs: "\<bar>r\<bar> \<le> 2" using r_ge r_le by simp
    have "\<bar>q * M - r * of_int b\<bar>
        \<le> 2 / 9007199254740992 * 65536 + 2 * (65535 / 9007199254740992)"
      using q(2) m(2) rabs Mabs unfolding q_def M_def by (rule mult_error)
    then have t0: "\<bar>q * M - r * of_int b\<bar> \<le> 262142 / 9007199254740992" by simp
    have z_ge: "1 / 65535 \<le> r * of_int b"
    proof -
      have rpos: "0 \<le> r" using r_ge by linarith
      have "r * 1 \<le> r * of_int b" by (rule mult_left_mono [OF B1 rpos])
      then show ?thesis using r_ge by linarith
    qed
    have z_le: "r * of_int b \<le> 131070"
    proof -
      have rpos: "0 \<le> r" using r_ge by linarith
      have bpos: "(0::rat) \<le> of_int b" using B1 by linarith
      have "r * of_int b \<le> 2 * 65535" by (rule mult_mono [OF r_le B2 _ bpos]) simp
      then show ?thesis by linarith
    qed
    have t1: "1 / 1048576 \<le> q * M" using t0 z_ge by linarith
    have t2: "q * M \<le> 131071" using t0 z_le by linarith
    from to_float_near [OF t1 t2]
    have t: "to_float (q * M) = Inr (fl (q * M))"
      "\<bar>fl (q * M) - q * M\<bar> \<le> 131071 / 9007199254740992" by simp_all
    define t where "t = fl (q * M)"
    have u1: "1 / 1048576 \<le> t + 1" using t(2) t1 unfolding t_def by linarith
    have u2: "t + 1 \<le> 131073" using t(2) t2 unfolding t_def by linarith
    from to_float_near [OF u1 u2]
    have u: "to_float (t + 1) = Inr (fl (t + 1))"
      "\<bar>fl (t + 1) - (t + 1)\<bar> \<le> 131073 / 9007199254740992" by simp_all
    have "raw_to_position (b + 1) raw = Inr (py_round (fl (t + 1)))"
      using q(1) m(1) t(1) u(1) by (simp add: raw_to_position_def r_def q_def M_def t_def)
    moreover have "\<bar>fl (t + 1) - (of_int raw * of_int b / 65535 + 1)\<bar>
        \<le> 524288 / 9007199254740992"
    proof -
      have "r * of_int b = of_int raw * of_int b / 65535" by (simp add: r_def)
      then show ?thesis using u(2) t(2) t0 unfolding t_def by linarith
    qed
    ultimately show ?thesis by blast
  qed
qed


lemma selector_round_trip:
  assumes "2 \<le> n" "n \<le> 65536" "1 \<le> p" "p \<le> n"
  shows "\<exists>raw. position_to_raw n p = Inr raw \<and> 0 \<le> raw \<and> raw \<le> 65535
     \<and> raw_to_position n raw = Inr p"
proof -
  define a where "a = p - 1"
  define b where "b = n - 1"
  have b1: "1 \<le> b" and b2: "b \<le> 65535" and a0: "0 \<le> a" and ab: "a \<le> b"
    using assms by (simp_all add: a_def b_def)
  have np: "n = b + 1" "p = a + 1" by (simp_all add: a_def b_def)
  define A :: rat where "A = of_int a"
  define B :: rat where "B = of_int b"
  have B1: "1 \<le> B" using b1 by (simp add: B_def)
  have B2: "B \<le> 65535" using b2 by (simp add: B_def)
  have A0: "0 \<le> A" using a0 by (simp add: A_def)
  have AB: "A \<le> B" using ab by (simp add: A_def B_def)
  define x where "x = 65535 * (A / B)"
  have x0: "0 \<le> x" using A0 B1 by (simp add: x_def)
  have "A / B \<le> 1" using AB B1 by (simp add: divide_le_eq)
  then have x1: "x \<le> 65535" unfolding x_def by linarith
  have b3: "b \<le> 1048576" using b2 by simp
  from position_to_raw_near [OF b1 b3 a0 ab] obtain raw where
    raw: "position_to_raw n p = Inr raw"
    and e1: "\<bar>of_int raw - x\<bar> \<le> 1 / 2 + 131071 / 9007199254740992"
    by (auto simp add: np x_def A_def B_def)
  have "(- 1 :: rat) < of_int raw" using e1 x0 by linarith
  then have "(of_int (- 1) :: rat) < of_int raw" by simp
  then have "- 1 < raw" by (simp only: of_int_less_iff)
  then have raw0: "0 \<le> raw" by simp
  have "(of_int raw :: rat) < 65536" using e1 x1 by linarith
  then have "(of_int raw :: rat) < of_int 65536" by simp
  then have "raw < 65536" by (simp only: of_int_less_iff)
  then have raw1: "raw \<le> 65535" by simp
  then have raw2: "raw \<le> 65536" by simp
  from raw_to_position_near [OF b1 b2 raw0 raw2] obtain u where
    u: "raw_to_position n raw = Inr (py_round u)"
    and e2: "\<bar>u - (of_int raw * B / 65535 + 1)\<bar> \<le> 524288 / 9007199254740992"
    by (auto simp add: np B_def)
  have xB: "x * (B / 65535) = A" using B1 by (simp add: x_def)
  have "(of_int raw - x) * (B / 65535) = of_int raw * (B / 65535) - x * (B / 65535)"
    by (rule left_diff_distrib)
  also have "\<dots> = of_int raw * B / 65535 - A"
    unfolding xB by simp
  finally have diff: "of_int raw * B / 65535 - A = (of_int raw - x) * (B / 65535)"
    by (rule sym)
  have near: "\<bar>u - of_int p\<bar> < 1 / 2"
  proof (cases "b = 65535")
    case True
    then have Be: "B = 65535" by (simp add: B_def)
    have "x = A" using Be by (simp add: x_def)
    then have "\<bar>(of_int raw :: rat) - of_int a\<bar> < 1" using e1 by (simp add: A_def)
    then have "\<bar>(of_int (raw - a) :: rat)\<bar> < 1" by simp
    then have "\<bar>raw - a\<bar> < 1" by (simp only: of_int_abs [symmetric] of_int_less_1_iff)
    then have "raw = a" by simp
    then have "of_int raw * B / 65535 + 1 = (of_int p :: rat)" by (simp add: Be np)
    then show ?thesis using e2 by simp
  next
    case False
    then have "b \<le> 65534" using b2 by simp
    then have B3: "B \<le> 65534" by (simp add: B_def)
    have s1: "0 \<le> B / 65535" using B1 by simp
    have s2: "B / 65535 \<le> 65534 / 65535" using B3 by simp
    have "\<bar>of_int raw * B / 65535 - A\<bar> = \<bar>of_int raw - x\<bar> * (B / 65535)"
      using s1 by (simp only: diff abs_mult abs_of_nonneg)
    also have "\<dots> \<le> (1 / 2 + 131071 / 9007199254740992) * (65534 / 65535)"
      by (rule mult_mono [OF e1 s2 _ s1]) simp
    finally have "\<bar>of_int raw * B / 65535 - A\<bar>
        \<le> (1 / 2 + 131071 / 9007199254740992) * (65534 / 65535)" .
    moreover have "(1 / 2 + 131071 / 9007199254740992) * (65534 / 65535)
        + 524288 / 9007199254740992 < (1 / 2 :: rat)" by simp
    moreover have "(of_int p :: rat) = A + 1" by (simp add: np A_def)
    ultimately show ?thesis using e2 by linarith
  qed
  have "py_round u = p" using near by (rule py_round_unique)
  then show ?thesis using raw raw0 raw1 u by simp
qed

subsection \<open>The selector: set_position and get_position\<close>

lemma raw_to_position_0:
  assumes "2 \<le> n" "n \<le> 1048577"
  shows "raw_to_position n 0 = Inr 1"
proof -
  have B1: "1 / 1048576 \<le> (of_int (n - 1) :: rat)"
  proof -
    have "(1::rat) \<le> of_int (n - 1)" using assms(1) by simp
    then show ?thesis by linarith
  qed
  have B2: "(of_int (n - 1) :: rat) \<le> 1048576" using assms(2) by simp
  from to_float_near [OF B1 B2]
  have m: "to_float (of_int (n - 1)) = Inr (fl (of_int (n - 1)))" by simp
  have "(1 / 1048576 :: rat) \<le> 1" by simp
  from to_float_near [OF this, of 1]
  have one: "to_float 1 = Inr (fl 1)" "\<bar>fl 1 - 1\<bar> \<le> 1 / 9007199254740992" by simp_all
  have "\<bar>fl 1 - of_int 1\<bar> < 1 / 2" using one(2) by simp
  then have "py_round (fl 1) = 1" by (rule py_round_unique)
  then show ?thesis using m one(1) by (simp add: raw_to_position_def to_float_0)
qed

lemma position_to_raw_200001_2: "position_to_raw 200001 2 = Inr 0"
proof -
  from position_to_raw_near [of 200000 1] obtain raw where
    r: "position_to_raw 200001 2 = Inr raw"
    and e: "\<bar>of_int raw - 65535 * (1 / 200000 :: rat)\<bar> \<le> 1 / 2 + 131071 / 9007199254740992"
    by auto
  have "\<bar>(of_int raw :: rat)\<bar> < 1" using e by linarith
  then have "\<bar>raw\<bar> < 1" by (simp only: of_int_abs [symmetric] of_int_less_1_iff)
  then show ?thesis using r by simp
qed

lemma position_to_raw_4_3: "position_to_raw 4 3 = Inr 43690"
proof -
  from position_to_raw_near [of 3 2] obtain raw where
    r: "position_to_raw 4 3 = Inr raw"
    and e: "\<bar>of_int raw - 65535 * (2 / 3 :: rat)\<bar> \<le> 1 / 2 + 131071 / 9007199254740992"
    by auto
  have "\<bar>(of_int raw :: rat) - of_int 43690\<bar> < 1" using e by simp
  then have "\<bar>(of_int (raw - 43690) :: rat)\<bar> < 1" by simp
  then have "\<bar>raw - 43690\<bar> < 1" by (simp only: of_int_abs [symmetric] of_int_less_1_iff)
  then show ?thesis using r by simp
qed

text \<open>The world in which \<open>set_position\<close> reaches its \<open>await\<close>.\<close>

lemma set_position_result:
  assumes "1 \<le> p" "p \<le> position_count (heap w r)"
    and "position_to_raw (position_count (heap w r)) p = Inr raw"
  shows "set_position r p w =
     Inr (next_future w,
       w\<lparr>heap := (heap w)(r := (heap w r)\<lparr>raw_value := raw, raw_value_time := loop_time w\<rparr>),
         tasks := tasks w @
           (if raw_value (heap w r) \<noteq> raw
            then map (\<lambda>clb. Observer_call clb r (raw_value (heap w r)) raw) (observer (heap w r))
            else []),
         futures := (futures w)(next_future w := Pending),
         next_future := Suc (next_future w),
         callback_queue := callback_queue w @
           [\<lparr>cb_callback = Assure_callback r, expected_lines = 1, regex = Some Assure_regex,
             future = next_future w\<rparr>],
         sent := sent w @
           [''CS '' @ py_str (controller_number (heap w r)) @ '' '' @ py_str raw @ [CR]]\<rparr>)"
  using assms
  by (simp add: set_position_def set_raw_value_def assure_current_state_def new_callback_def
        proto_write_def Let_def)

lemma set_position_Inr:
  assumes "set_position r p w = Inr (fut, w1)"
  shows "\<exists>raw. 1 \<le> p \<and> p \<le> position_count (heap w r)
     \<and> position_to_raw (position_count (heap w r)) p = Inr raw"
  using assms by (auto simp add: set_position_def split: if_splits sum.splits)

lemma re_match_ACK: "re_match Assure_regex (''ACK'' @ [CR]) = Some [Some ''ACK'', None]"
  by simp

lemma datagram_ack_single:
  assumes "callback_queue w = [c]" "regex c = Some Assure_regex" "cb_callback c = Assure_callback r"
  shows "datagram_received w (''ACK'' @ [CR]) =
     Inr (w\<lparr>callback_queue := [], futures := (futures w)(future c := Result)\<rparr>)"
  unfolding datagram_received_decoded [OF decode_ACK]
  using assms lines_of_ACK
  by (simp add: received_str_def callback_def assure_callback_def group1_def)

lemma datagram_nak_single:
  assumes "callback_queue w = [c]"
  shows "datagram_received w (''NAK'' @ [CR]) =
     Inr (w\<lparr>callback_queue := [],
       futures := (futures w)(future c := Raised (no_match_exception (cb_callback c) w))\<rparr>)"
  unfolding datagram_received_decoded [OF decode_NAK]
  using assms lines_of_NAK by (simp add: received_str_def callback_without_match)

text \<open>A datagram that is not a lone \<open>NAK\<close> and that the pattern of the only pending
  request does not match: the request stays pending, and the datagram is taken for pushed
  data.\<close>

lemma datagram_unmatched_single:
  assumes "callback_queue w = [c]" "regex c = Some rx" "re_match rx data_str = None"
    and "decode data = Inr data_str" and "lines_of data_str \<noteq> [''NAK'']"
  shows "\<exists>w'. datagram_received w data = Inr w' \<and> callback_queue w' = callback_queue w
     \<and> futures w' = futures w \<and> heap w' = heap w \<and> tasks w' = tasks w"
proof -
  have n: "(length (lines_of data_str) = 1 \<and> hd (lines_of data_str) = ''NAK'') = False"
    using assms(5) by (cases "lines_of data_str") auto
  have f: "for_callbacks w data_str (lines_of data_str) [] [c] = None"
    unfolding for_callbacks.simps n using assms(2,3) by simp
  have "received_str w data_str = w \<or> received_str w data_str = push_lines (lines_of data_str) w"
    unfolding received_str_def Let_def n assms(1) f by simp
  then have "callback_queue (received_str w data_str) = callback_queue w
     \<and> futures (received_str w data_str) = futures w \<and> heap (received_str w data_str) = heap w
     \<and> tasks (received_str w data_str) = tasks w"
    by (auto simp add: push_lines_eq)
  then show ?thesis using datagram_received_decoded [OF assms(4), of w] by simp
qed


lemma get_position_fresh:
  assumes "fl (loop_time w - raw_value_time (heap w r)) \<le> value_timeout"
  shows "get_position r w =
     Some (raw_to_position (position_count (heap w r)) (raw_value (heap w r)))"
  using assms by (simp add: get_position_def get_raw_value_def)

lemma set_then_get:
  assumes "1 \<le> p" "p \<le> position_count (heap w r)"
    and "position_to_raw (position_count (heap w r)) p = Inr raw"
    and "callback_queue w = []"
  shows "\<exists>fut w1 w2. set_position r p w = Inr (fut, w1)
     \<and> datagram_received w1 (''ACK'' @ [CR]) = Inr w2
     \<and> await_future fut w2 = Some (Inr ())
     \<and> get_position r w2 = Some (raw_to_position (position_count (heap w r)) raw)
     \<and> (\<forall>t. fl (t - loop_time w) \<le> value_timeout \<longrightarrow>
           get_position r (w2\<lparr>loop_time := t\<rparr>) =
             Some (raw_to_position (position_count (heap w r)) raw))"
proof -
  define c where
    "c = \<lparr>cb_callback = Assure_callback r, expected_lines = 1, regex = Some Assure_regex,
          future = next_future w\<rparr>"
  define w1 where "w1 =
       w\<lparr>heap := (heap w)(r := (heap w r)\<lparr>raw_value := raw, raw_value_time := loop_time w\<rparr>),
         tasks := tasks w @
           (if raw_value (heap w r) \<noteq> raw
            then map (\<lambda>clb. Observer_call clb r (raw_value (heap w r)) raw) (observer (heap w r))
            else []),
         futures := (futures w)(next_future w := Pending),
         next_future := Suc (next_future w),
         callback_queue := [c],
         sent := sent w @
           [''CS '' @ py_str (controller_number (heap w r)) @ '' '' @ py_str raw @ [CR]]\<rparr>"
  define w2 where "w2 = w1\<lparr>callback_queue := [], futures := (futures w1)(next_future w := Result)\<rparr>"
  have sp: "set_position r p w = Inr (next_future w, w1)"
    using set_position_result [OF assms(1-3)] assms(4) by (simp add: w1_def c_def)
  have q: "callback_queue w1 = [c]" by (simp add: w1_def)
  have ack: "datagram_received w1 (''ACK'' @ [CR]) = Inr w2"
    using datagram_ack_single [OF q, of r] by (simp add: c_def w2_def)
  have a: "await_future (next_future w) w2 = Some (Inr ())"
    unfolding w2_def by (simp add: await_future_def)
  have g: "get_position r (w2\<lparr>loop_time := t\<rparr>) =
       Some (raw_to_position (position_count (heap w r)) raw)"
    if "fl (t - loop_time w) \<le> value_timeout" for t
    unfolding w2_def using that by (subst get_position_fresh) (simp_all add: w1_def)
  have g0: "get_position r w2 =
       Some (raw_to_position (position_count (heap w r)) raw)"
    unfolding w2_def by (subst get_position_fresh) (simp_all add: w1_def fl_0 value_timeout_def)
  from sp ack a g g0 show ?thesis by blast
qed

text \<open>
  Claim C4, as amended: for a selector with 2 \<open>\<le>\<close> N \<open>\<le>\<close> 65536 positions and a position
  1 \<open>\<le>\<close> p \<open>\<le>\<close> N, in the floating point arithmetic of the code, the raw value written by
  \<open>set_position(p)\<close> is read back as p: by the two mappings, and by \<open>get_position\<close>
  after \<open>set_position\<close> has run with nothing else pending and its \<open>CS\<close> has been
  acknowledged, as long as the cache is fresh (at the same reading of the clock and at
  any reading whose distance rounds to at most ten seconds).
\<close>

theorem selector_round_trip_up_to_65536:
  assumes "2 \<le> position_count (heap w r)" and "position_count (heap w r) \<le> 65536"
    and "1 \<le> p" and "p \<le> position_count (heap w r)" and "callback_queue w = []"
  shows "\<exists>fut w1 w2 raw.
       position_to_raw (position_count (heap w r)) p = Inr raw
     \<and> raw_to_position (position_count (heap w r)) raw = Inr p
     \<and> set_position r p w = Inr (fut, w1)
     \<and> datagram_received w1 (''ACK'' @ [CR]) = Inr w2
     \<and> await_future fut w2 = Some (Inr ())
     \<and> get_position r w2 = Some (Inr p)
     \<and> (\<forall>t. fl (t - loop_time w) \<le> value_timeout \<longrightarrow>
           get_position r (w2\<lparr>loop_time := t\<rparr>) = Some (Inr p))"
proof -
  from selector_round_trip [OF assms(1-4)] obtain raw where
    raw: "position_to_raw (position_count (heap w r)) p = Inr raw"
    and inverse: "raw_to_position (position_count (heap w r)) raw = Inr p" by blast
  from set_then_get [OF assms(3,4) raw assms(5)] raw inverse
  show ?thesis by auto
qed

text \<open>Position 3 of the example selector with its four positions: the raw value is
  43690.\<close>

theorem selector_round_trip_up_to_65536_witness:
  "\<exists>fut w1 w2. set_position 0 3 example_world = Inr (fut, w1)
     \<and> position_to_raw 4 3 = Inr 43690
     \<and> raw_to_position 4 43690 = Inr 3
     \<and> datagram_received w1 (''ACK'' @ [CR]) = Inr w2
     \<and> await_future fut w2 = Some (Inr ())
     \<and> get_position 0 w2 = Some (Inr 3)"
proof -
  have h: "2 \<le> position_count (heap example_world 0)"
    "position_count (heap example_world 0) \<le> 65536"
    "(1::int) \<le> 3" "3 \<le> position_count (heap example_world 0)"
    "callback_queue example_world = []"
    by (simp_all add: example_world_def example_selector_def)
  have n: "position_count (heap example_world 0) = 4"
    by (simp add: example_world_def example_selector_def)
  from selector_round_trip_up_to_65536 [OF h] obtain fut w1 w2 raw where
    r: "position_to_raw 4 3 = Inr raw" "raw_to_position 4 raw = Inr 3"
      "set_position 0 3 example_world = Inr (fut, w1)"
      "datagram_received w1 (''ACK'' @ [CR]) = Inr w2"
      "await_future fut w2 = Some (Inr ())"
      "get_position 0 w2 = Some (Inr 3)"
    unfolding n by blast
  have raw: "raw = 43690" using r(1) by (simp add: position_to_raw_4_3)
  from r show ?thesis unfolding raw by blast
qed


text \<open>
  The claim as stated, for every N \<open>\<ge>\<close> 2, fails: with N = 200001, position 2 is written
  as the raw value 0 and read back as position 1.
\<close>

theorem selector_round_trip_counterexample:
  "position_to_raw 200001 2 = Inr 0
   \<and> raw_to_position 200001 0 = Inr 1
   \<and> (case set_position 0 2
            (example_world\<lparr>heap := (\<lambda>_. example_selector\<lparr>position_count := 200001\<rparr>)\<rparr>) of
         Inl e \<Rightarrow> False
       | Inr (fut, w1) \<Rightarrow>
           (case datagram_received w1 (''ACK'' @ [CR]) of
              Inl e \<Rightarrow> False
            | Inr w2 \<Rightarrow>
                await_future fut w2 = Some (Inr ())
                \<and> get_position 0 w2 = Some (Inr 1)))
   \<and> (1::int) \<noteq> 2"
proof -
  define big where
    "big = example_world\<lparr>heap := (\<lambda>_. example_selector\<lparr>position_count := 200001\<rparr>)\<rparr>"
  have n: "position_count (heap big 0) = 200001" by (simp add: big_def)
  have h: "(1::int) \<le> 2" "2 \<le> position_count (heap big 0)"
    "position_to_raw (position_count (heap big 0)) 2 = Inr 0"
    "callback_queue big = []"
    by (simp_all add: n position_to_raw_200001_2) (simp add: big_def example_world_def)
  have b: "raw_to_position 200001 0 = Inr 1" by (rule raw_to_position_0) simp_all
  from set_then_get [OF h] obtain fut w1 w2 where
    r: "set_position 0 2 big = Inr (fut, w1)"
      "datagram_received w1 (''ACK'' @ [CR]) = Inr w2"
      "await_future fut w2 = Some (Inr ())"
      "get_position 0 w2 = Some (Inr 1)"
    unfolding n b by blast
  have "case set_position 0 2 big of
         Inl e \<Rightarrow> False
       | Inr (fut, w1) \<Rightarrow>
           (case datagram_received w1 (''ACK'' @ [CR]) of
              Inl e \<Rightarrow> False
            | Inr w2 \<Rightarrow>
                await_future fut w2 = Some (Inr ())
                \<and> get_position 0 w2 = Some (Inr 1))"
    unfolding r(1) using r(2,3,4) by simp
  then show ?thesis unfolding big_def using position_to_raw_200001_2 b by simp
qed

text \<open>
  Claim C10, as amended. \<open>set_position(p)\<close>, called with no other request pending, up to
  its \<open>await\<close>: the mapped raw value is in the cache, stamped with the clock of the loop,
  the observers are scheduled if the value changed, \<open>CS\<close> is sent and the future is
  pending. When the device then answers \<open>NAK\<close>, the \<open>await\<close> raises the exception of
  \<open>_assure_callback\<close> in the caller, while the cache and the scheduled tasks stay as
  \<open>set_position\<close> left them. A datagram that is not a lone \<open>NAK\<close> and that the pattern of
  the request does not match raises nothing in the caller: the request stays pending, the
  cache and the scheduled tasks stay as well.
\<close>

theorem set_position_is_not_atomic:
  assumes "callback_queue w = []" and "set_position r p w = Inr (fut, w1)"
  shows "\<exists>raw w2. position_to_raw (position_count (heap w r)) p = Inr raw
     \<and> heap w1 = (heap w)(r := (heap w r)\<lparr>raw_value := raw, raw_value_time := loop_time w\<rparr>)
     \<and> tasks w1 = tasks w @
           (if raw_value (heap w r) \<noteq> raw
            then map (\<lambda>clb. Observer_call clb r (raw_value (heap w r)) raw) (observer (heap w r))
            else [])
     \<and> sent w1 = sent w @
           [''CS '' @ py_str (controller_number (heap w r)) @ '' '' @ py_str raw @ [CR]]
     \<and> await_future fut w1 = None
     \<and> datagram_received w1 (''NAK'' @ [CR]) = Inr w2
     \<and> await_future fut w2 = Some (Inl (Assure_failed (controller_number (heap w r))))
     \<and> heap w2 = heap w1
     \<and> tasks w2 = tasks w1
     \<and> (\<forall>data data_str.
           decode data = Inr data_str \<and> lines_of data_str \<noteq> [''NAK'']
             \<and> re_match Assure_regex data_str = None \<longrightarrow>
           (\<exists>w3. datagram_received w1 data = Inr w3
              \<and> await_future fut w3 = None
              \<and> callback_queue w3 = callback_queue w1
              \<and> heap w3 = heap w1
              \<and> tasks w3 = tasks w1))"
proof -
  from set_position_Inr [OF assms(2)] obtain raw where
    p: "1 \<le> p" "p \<le> position_count (heap w r)"
    and raw: "position_to_raw (position_count (heap w r)) p = Inr raw" by blast
  define c where
    "c = \<lparr>cb_callback = Assure_callback r, expected_lines = 1, regex = Some Assure_regex,
          future = next_future w\<rparr>"
  from set_position_result [OF p raw] assms
  have fut: "fut = next_future w"
    and w1: "w1 =
       w\<lparr>heap := (heap w)(r := (heap w r)\<lparr>raw_value := raw, raw_value_time := loop_time w\<rparr>),
         tasks := tasks w @
           (if raw_value (heap w r) \<noteq> raw
            then map (\<lambda>clb. Observer_call clb r (raw_value (heap w r)) raw) (observer (heap w r))
            else []),
         futures := (futures w)(next_future w := Pending),
         next_future := Suc (next_future w),
         callback_queue := [c],
         sent := sent w @
           [''CS '' @ py_str (controller_number (heap w r)) @ '' '' @ py_str raw @ [CR]]\<rparr>"
    by (simp_all add: c_def)
  have q: "callback_queue w1 = [c]" by (simp add: w1)
  have rx: "regex c = Some Assure_regex" by (simp add: c_def)
  have cn: "no_match_exception (cb_callback c) w1 = Assure_failed (controller_number (heap w r))"
    by (simp add: c_def w1)
  have fc: "future c = fut" by (simp add: c_def fut)
  define w2 where "w2 = w1\<lparr>callback_queue := [],
        futures := (futures w1)(fut := Raised (Assure_failed (controller_number (heap w r))))\<rparr>"
  have nak: "datagram_received w1 (''NAK'' @ [CR]) = Inr w2"
    using datagram_nak_single [OF q] by (simp only: cn fc w2_def)
  have pending: "await_future fut w1 = None" by (simp add: await_future_def w1 fut)
  have "heap w1 = (heap w)(r := (heap w r)\<lparr>raw_value := raw, raw_value_time := loop_time w\<rparr>)"
    by (simp add: w1)
  moreover have "tasks w1 = tasks w @
           (if raw_value (heap w r) \<noteq> raw
            then map (\<lambda>clb. Observer_call clb r (raw_value (heap w r)) raw) (observer (heap w r))
            else [])"
    by (simp add: w1)
  moreover have "sent w1 = sent w @
           [''CS '' @ py_str (controller_number (heap w r)) @ '' '' @ py_str raw @ [CR]]"
    by (simp add: w1)
  moreover have "await_future fut w2 =
           Some (Inl (Assure_failed (controller_number (heap w r))))"
    unfolding w2_def by (simp add: await_future_def)
  moreover have "heap w2 = heap w1" "tasks w2 = tasks w1"
    unfolding w2_def by simp_all
  moreover have "\<exists>w3. datagram_received w1 data = Inr w3
              \<and> await_future fut w3 = None
              \<and> callback_queue w3 = callback_queue w1
              \<and> heap w3 = heap w1
              \<and> tasks w3 = tasks w1"
    if "decode data = Inr data_str" "lines_of data_str \<noteq> [''NAK'']"
       "re_match Assure_regex data_str = None" for data data_str
  proof -
    from datagram_unmatched_single [OF q rx that(3) that(1) that(2)] obtain w3 where
      w3: "datagram_received w1 data = Inr w3" "callback_queue w3 = callback_queue w1"
        "futures w3 = futures w1" "heap w3 = heap w1" "tasks w3 = tasks w1"
      by blast
    have "await_future fut w3 = None" using pending by (simp add: await_future_def w3(3))
    with w3 show ?thesis by blast
  qed
  ultimately show ?thesis using raw nak pending by blast
qed

text \<open>Position 3 of the example selector. Answered by \<open>NAK\<close>: the caller gets the
  exception, the cache holds 43690 and both observers stay scheduled. Answered by \<open>ERR\<close>:
  the request stays pending, with the same cache.\<close>

theorem set_position_is_not_atomic_witness:
  "\<exists>fut w1 w2 w3. set_position 0 3 example_world = Inr (fut, w1)
     \<and> await_future fut w1 = None
     \<and> datagram_received w1 (''NAK'' @ [CR]) = Inr w2
     \<and> await_future fut w2 = Some (Inl (Assure_failed 42))
     \<and> raw_value (heap w2 0) = 43690
     \<and> raw_value_time (heap w2 0) = 5
     \<and> tasks w2 = [Observer_call 7 0 0 43690, Observer_call 8 0 0 43690]
     \<and> datagram_received w1 (''ERR'' @ [CR]) = Inr w3
     \<and> await_future fut w3 = None
     \<and> raw_value (heap w3 0) = 43690"
proof -
  have n: "position_count (heap example_world 0) = 4"
    by (simp add: example_world_def example_selector_def)
  have "(1::int) \<le> 3" "3 \<le> position_count (heap example_world 0)"
    "position_to_raw (position_count (heap example_world 0)) 3 = Inr 43690"
    by (simp_all add: n position_to_raw_4_3)
  from set_position_result [OF this] obtain fut w1 where
    sp: "set_position 0 3 example_world = Inr (fut, w1)" by blast
  have q: "callback_queue example_world = []" by (simp add: example_world_def)
  from set_position_is_not_atomic [OF q sp] obtain raw w2 where
    r: "position_to_raw (position_count (heap example_world 0)) 3 = Inr raw"
      "heap w1 = (heap example_world)
         (0 := (heap example_world 0)\<lparr>raw_value := raw, raw_value_time := loop_time example_world\<rparr>)"
      "tasks w1 = tasks example_world @
           (if raw_value (heap example_world 0) \<noteq> raw
            then map (\<lambda>clb. Observer_call clb 0 (raw_value (heap example_world 0)) raw)
                   (observer (heap example_world 0))
            else [])"
      "await_future fut w1 = None"
      "datagram_received w1 (''NAK'' @ [CR]) = Inr w2"
      "await_future fut w2 =
           Some (Inl (Assure_failed (controller_number (heap example_world 0))))"
      "heap w2 = heap w1"
      "tasks w2 = tasks w1"
    and u: "\<And>data data_str.
           decode data = Inr data_str \<and> lines_of data_str \<noteq> [''NAK'']
             \<and> re_match Assure_regex data_str = None \<longrightarrow>
           (\<exists>w3. datagram_received w1 data = Inr w3
              \<and> await_future fut w3 = None
              \<and> callback_queue w3 = callback_queue w1
              \<and> heap w3 = heap w1
              \<and> tasks w3 = tasks w1)"
    by blast
  have raw: "raw = 43690" using r(1) by (simp add: n position_to_raw_4_3)
  have e: "decode (''ERR'' @ [CR]) = Inr (''ERR'' @ [CR])"
    "lines_of (''ERR'' @ [CR]) \<noteq> [''NAK'']"
    "re_match Assure_regex (''ERR'' @ [CR]) = None"
    by (simp_all add: decode_def lines_of_def split_on_def CR_def)
  from u [of "''ERR'' @ [CR]" "''ERR'' @ [CR]"] e obtain w3 where
    w3: "datagram_received w1 (''ERR'' @ [CR]) = Inr w3" "await_future fut w3 = None"
      "heap w3 = heap w1"
    by blast
  have "await_future fut w2 = Some (Inl (Assure_failed 42))"
    unfolding r(6) by (simp add: example_world_def example_selector_def)
  moreover have "raw_value (heap w2 0) = 43690" "raw_value_time (heap w2 0) = 5"
    unfolding r(7) r(2) raw by (simp_all add: example_world_def)
  moreover have "tasks w2 = [Observer_call 7 0 0 43690, Observer_call 8 0 0 43690]"
    unfolding r(8) r(3) raw by (simp add: example_world_def example_selector_def)
  moreover have "raw_value (heap w3 0) = 43690"
    unfolding w3(3) r(2) raw by simp
  ultimately show ?thesis using sp r(4,5) w3(1,2) by blast
qed

text \<open>
  The claim as stated fails in its parenthesis and without the condition on the queue.
  The example selector is set to position 3 and the device answers \<open>ERR\r\<close>, which does
  not match the pattern: no exception reaches the caller, the future stays pending and
  the request stays in the queue; the line is logged as malformed pushed data. And with a
  \<open>GS2\<close> request pending before it, the \<open>NAK\<close> of the device rejects that request: the
  future of \<open>set_position\<close> stays pending.
\<close>

theorem unmatched_response_raises_nothing:
  "re_match Assure_regex (''ERR'' @ [CR]) = None
   \<and> (case set_position 0 3 example_world of
         Inl e \<Rightarrow> False
       | Inr (fut, w1) \<Rightarrow>
           (case datagram_received w1 (''ERR'' @ [CR]) of
              Inl e \<Rightarrow> False
            | Inr w3 \<Rightarrow>
                await_future fut w3 = None
                \<and> map future (callback_queue w3) = [fut]
                \<and> log w3 = [Log ERROR ''error in in the received line <%s>'' [''ERR'']]))
   \<and> (case set_position 0 3
            (example_world\<lparr>callback_queue :=
               [\<lparr>cb_callback = Retrieve_callback 0, expected_lines = 1,
                 regex = Some (Retrieve_regex 42), future = 0\<rparr>],
              next_future := 1\<rparr>) of
         Inl e \<Rightarrow> False
       | Inr (fut, w1) \<Rightarrow>
           (case datagram_received w1 (''NAK'' @ [CR]) of
              Inl e \<Rightarrow> False
            | Inr w2 \<Rightarrow>
                await_future fut w2 = None
                \<and> await_future 0 w2 = Some (Inl (Retrieve_failed 42))
                \<and> map future (callback_queue w2) = [fut]))"
proof -
  define other where
    "other = \<lparr>cb_callback = Retrieve_callback 0, expected_lines = 1,
                 regex = Some (Retrieve_regex 42), future = 0\<rparr>"
  define busy where "busy = example_world\<lparr>callback_queue := [other], next_future := 1\<rparr>"
  have n: "position_count (heap example_world 0) = 4" "position_count (heap busy 0) = 4"
    by (simp_all add: busy_def example_world_def example_selector_def)
  have m: "re_match Assure_regex (''ERR'' @ [CR]) = None" by simp
  have "(1::int) \<le> 3" "3 \<le> position_count (heap example_world 0)"
    "position_to_raw (position_count (heap example_world 0)) 3 = Inr 43690"
    by (simp_all add: n position_to_raw_4_3)
  note sp1 = set_position_result [OF this]
  have a: "case set_position 0 3 example_world of
         Inl e \<Rightarrow> False
       | Inr (fut, w1) \<Rightarrow>
           (case datagram_received w1 (''ERR'' @ [CR]) of
              Inl e \<Rightarrow> False
            | Inr w3 \<Rightarrow>
                await_future fut w3 = None
                \<and> map future (callback_queue w3) = [fut]
                \<and> log w3 = [Log ERROR ''error in in the received line <%s>'' [''ERR'']])"
    unfolding sp1
    by (simp add: datagram_received_def decode_def received_str_def lines_of_def split_on_def
          CR_def match_push_def await_future_def example_world_def)
  have "(1::int) \<le> 3" "3 \<le> position_count (heap busy 0)"
    "position_to_raw (position_count (heap busy 0)) 3 = Inr 43690"
    by (simp_all add: n position_to_raw_4_3)
  note sp2 = set_position_result [OF this]
  have b: "case set_position 0 3 busy of
         Inl e \<Rightarrow> False
       | Inr (fut, w1) \<Rightarrow>
           (case datagram_received w1 (''NAK'' @ [CR]) of
              Inl e \<Rightarrow> False
            | Inr w2 \<Rightarrow>
                await_future fut w2 = None
                \<and> await_future 0 w2 = Some (Inl (Retrieve_failed 42))
                \<and> map future (callback_queue w2) = [fut])"
    unfolding sp2
    by (simp add: datagram_received_def decode_def received_str_def lines_of_def split_on_def
          CR_def callback_without_match await_future_def busy_def other_def example_world_def
          example_selector_def)
  from m a b show ?thesis unfolding busy_def other_def by simp
qed

subsection \<open>The next full hour\<close>

lemma fl_exact_1704114000_25: "fl (6816456001 / 4) = 6816456001 / 4"
  using fl_eq [of "- 22" "6816456001 / 4"] by (simp add: pow2_def py_round_numeral)

lemma fl_exact_1704112215_25: "fl (6816448861 / 4) = 6816448861 / 4"
  using fl_eq [of "- 22" "6816448861 / 4"] by (simp add: pow2_def py_round_numeral)

lemma fl_exact_1785: "fl 1785 = 1785"
  using fl_eq [of "- 42" 1785] by (simp add: pow2_def py_round_numeral)

lemma fl_exact_1704114000: "fl 1704114000 = 1704114000"
  using fl_eq [of "- 22" 1704114000] by (simp add: pow2_def py_round_numeral)

lemma fl_exact_1704112215: "fl 1704112215 = 1704112215"
  using fl_eq [of "- 22" 1704112215] by (simp add: pow2_def py_round_numeral)

text \<open>
  Claim C7, at the aware \<open>now\<close> = 2024-01-01 12:30:15.250000 UTC: the function returns
  1704114000.25, the timestamp of 13:00:00.250000 and not of the full hour
  13:00:00 = 3600 \<open>\<cdot>\<close> 473365, because \<open>replace\<close> resets the minute and the second and
  leaves the microsecond; the timestamp of \<open>now\<close> is 1785 seconds before. From the same
  time without microseconds it returns the full hour.
\<close>

theorem next_hour_keeps_the_microseconds:
  "calc_next_hour_timestamp (\<lambda>_. 0) local_to_seconds 0 0
     \<lparr>dt_ordinal = 738886, dt_hour = 12, dt_minute = 30, dt_second = 15,
      dt_microsecond = 250000, dt_aware = True\<rparr>
     = Inr (3600 * 473365 + 1 / 4)
   \<and> timestamp (\<lambda>_. 0) local_to_seconds
     \<lparr>dt_ordinal = 738886, dt_hour = 12, dt_minute = 30, dt_second = 15,
      dt_microsecond = 250000, dt_aware = True\<rparr>
     = Inr (3600 * 473365 + 1 / 4 - 1785)
   \<and> calc_next_hour_timestamp (\<lambda>_. 0) local_to_seconds 0 0
     \<lparr>dt_ordinal = 738886, dt_hour = 12, dt_minute = 30, dt_second = 15,
      dt_microsecond = 0, dt_aware = True\<rparr>
     = Inr (3600 * 473365)"
  by (simp add: calc_next_hour_timestamp_def replace_minute_second_def add_one_hour_def
        timestamp_def epoch_seconds_def Let_def
        fl_exact_1704114000_25 fl_exact_1704112215_25 fl_exact_1785
        fl_exact_1704114000 fl_exact_1704112215)

end
